theory Spec2Isabelle
  imports Complex_Main
begin

section \<open>Star-formation-history utilities of \<open>prospect/plotting/sfh.py\<close>\<close>

text \<open>
  The module is numerical Python over numpy arrays. Floating-point numbers are modelled
  as reals, a one-dimensional array as a list, a two-dimensional array as a list of rows.
  Rounding is not modelled. Where numpy divides by zero it produces inf or nan and goes
  on, where HOL's \<open>x / 0\<close> is \<open>0\<close>; the theorems below say where a divisor may vanish.
  Every exception the source can raise is a value \<open>Inl e\<close> of the result type.
\<close>

subsection \<open>Errors and array helpers\<close>

datatype error =
    TypeError | ValueError | IndexError | KeyError
  | ZeroDivisionError | NotImplementedError | AttributeError

text \<open>A list comprehension whose body may raise: the first exception wins.\<close>

fun collect :: "(error + 'a) list \<Rightarrow> error + 'a list" where
  "collect [] = Inr []"
| "collect (x # xs) =
     (case x of
        Inl e \<Rightarrow> Inl e
      | Inr v \<Rightarrow> (case collect xs of Inl e \<Rightarrow> Inl e | Inr vs \<Rightarrow> Inr (v # vs)))"

text \<open>
  numpy broadcasting of a binary operation over two one-dimensional arrays: equal
  lengths go elementwise, a length-one operand is stretched, anything else is a
  \<open>ValueError\<close>.
\<close>

definition bcast2 :: "(real \<Rightarrow> real \<Rightarrow> real) \<Rightarrow> real list \<Rightarrow> real list \<Rightarrow> error + real list" where
  "bcast2 f xs ys =
     (if length xs = length ys then Inr (map2 f xs ys)
      else if length xs = 1 then Inr (map (f (hd xs)) ys)
      else if length ys = 1 then Inr (map (\<lambda>x. f x (hd ys)) xs)
      else Inl ValueError)"

text \<open>\<open>numpy.cumsum\<close> along the last axis.\<close>

fun cumsum_from :: "real \<Rightarrow> real list \<Rightarrow> real list" where
  "cumsum_from acc [] = []"
| "cumsum_from acc (x # xs) = (acc + x) # cumsum_from (acc + x) xs"

definition cumsum :: "real list \<Rightarrow> real list" where
  "cumsum xs = cumsum_from 0 xs"

text \<open>
  The linear-time width of each bin, \<open>10**agebins[:, 1] - 10**agebins[:, 0]\<close>, in years;
  a bin is a pair of edges in \<open>log10\<close> years.
\<close>

definition bin_widths :: "(real \<times> real) list \<Rightarrow> real list" where
  "bin_widths agebins = map (\<lambda>(lo, hi). 10 powr hi - 10 powr lo) agebins"

subsection \<open>\<open>sfh_to_cmf\<close>\<close>

text \<open>
  The result of \<open>np.squeeze\<close> on the \<open>(M, N + 1)\<close> array of cumulative mass fractions:
  the last axis has at least two entries, so only the ensemble axis can be dropped,
  and it is when the ensemble has exactly one member.
\<close>

datatype cmf_out = Row "real list" | Rows "real list list"

definition squeeze_rows :: "real list list \<Rightarrow> cmf_out" where
  "squeeze_rows rs = (case rs of [r] \<Rightarrow> Row r | _ \<Rightarrow> Rows rs)"

fun rows_of :: "cmf_out \<Rightarrow> real list list" where
  "rows_of (Row r) = [r]"
| "rows_of (Rows rs) = rs"

text \<open>
  One row of lines 183 to 188: reverse the per-bin masses, accumulate, divide by the
  last (total) value, put a zero in front. The final reversal is applied by the caller.
\<close>

definition cmf_of_masses :: "real list \<Rightarrow> real list" where
  "cmf_of_masses ms =
     (let masses = rev ms;
          cmfs = cumsum masses;
          cmfs = map (\<lambda>c. c / last cmfs) cmfs
      in 0 # cmfs)"

text \<open>
  \<open>sfrs\<close> is the array after \<open>np.atleast_2d\<close>: one row per ensemble member (a
  one-dimensional input is the single row). An empty ensemble is taken to have rows
  of the bin set's length. With no bins, or with rows that broadcasting leaves empty,
  \<open>cmfs[..., -1]\<close> raises \<open>IndexError\<close>.
\<close>

definition sfh_to_cmf :: "real list list \<Rightarrow> (real \<times> real) list \<Rightarrow> error + (real list \<times> cmf_out)" where
  "sfh_to_cmf sfrs agebins =
     (let dt = bin_widths agebins in
      case collect (map (\<lambda>row. bcast2 (*) row dt) sfrs) of
        Inl e \<Rightarrow> Inl e
      | Inr ms \<Rightarrow>
          if (sfrs = [] \<and> agebins = []) \<or> (\<exists>r \<in> set ms. r = []) then Inl IndexError
          else
            let cmfs = map cmf_of_masses ms;
                ages = map (\<lambda>(lo, hi). (10 powr (lo - 9), 10 powr (hi - 9))) agebins;
                ages = map fst ages @ [snd (last ages)]
            in Inr (ages, squeeze_rows (map rev cmfs)))"

subsection \<open>Scalars and arrays\<close>

text \<open>
  A value that is either a scalar (a Python float or a \<open>numpy.float64\<close>) or a
  one-dimensional array. The difference matters where the source assigns through a
  mask: an array accepts the assignment, a scalar raises \<open>TypeError\<close>.
\<close>

datatype ndval = Scal real | Arr "real list"

fun nd_map :: "(real \<Rightarrow> real) \<Rightarrow> ndval \<Rightarrow> ndval" where
  "nd_map f (Scal v) = Scal (f v)"
| "nd_map f (Arr vs) = Arr (map f vs)"

text \<open>\<open>np.squeeze\<close> of a one-dimensional array: a single entry becomes a scalar.\<close>

definition squeeze_vec :: "real list \<Rightarrow> ndval" where
  "squeeze_vec xs = (if length xs = 1 then Scal (hd xs) else Arr xs)"

text \<open>\<open>psi[tt < 0] = 0\<close>: item assignment through the boolean mask \<open>tt < 0\<close>.\<close>

fun zero_where_negative :: "ndval \<Rightarrow> ndval \<Rightarrow> error + ndval" where
  "zero_where_negative (Scal v) tt = Inl TypeError"
| "zero_where_negative (Arr vs) (Scal t) = Inr (Arr (if t < 0 then map (\<lambda>_. 0) vs else vs))"
| "zero_where_negative (Arr vs) (Arr ts) =
     (if length vs = length ts then Inr (Arr (map2 (\<lambda>v t. if t < 0 then 0 else v) vs ts))
      else Inl IndexError)"

subsection \<open>\<open>parametric_sfr\<close>\<close>

text \<open>
  \<open>scipy.special.gamma\<close> and \<open>scipy.special.gammainc\<close> are parameters of the model.
  \<open>tau\<close> and \<open>tage\<close> are Python scalars, the argument \<open>power\<close> (here \<open>pow\<close>) is a
  non-negative integer (the docstring names 0 and 1), \<open>mass\<close>, \<open>logmass\<close> and \<open>times\<close>
  are \<open>None\<close> when omitted.
  Line 102 at one value \<open>tt\<close>:
\<close>

definition psi_value ::
  "(real \<Rightarrow> real) \<Rightarrow> (real \<Rightarrow> real \<Rightarrow> real) \<Rightarrow> real \<Rightarrow> real \<Rightarrow> nat \<Rightarrow> real \<Rightarrow> real \<Rightarrow> real" where
  "psi_value gamma gammainc tau tage pow mass tt =
     (let p = real pow + 1
      in mass * (tt / tau) ^ pow * exp (- tt / tau) / (tau * gamma p * gammainc p (tage / tau)))"

text \<open>
  Without \<open>times\<close> the quotient \<open>tt/tau\<close> is a quotient of Python floats, which raises
  \<open>ZeroDivisionError\<close> for \<open>tau = 0\<close> before \<open>mass\<close> is used; with \<open>times\<close> it is an
  array quotient, a missing \<open>mass\<close> fails first, and \<open>tage/tau\<close> raises afterwards.
  The two assertions of lines 98 and 99 hold for scalars.
\<close>

definition parametric_sfr ::
  "(real \<Rightarrow> real) \<Rightarrow> (real \<Rightarrow> real \<Rightarrow> real) \<Rightarrow> real \<Rightarrow> real \<Rightarrow> nat \<Rightarrow>
     real option \<Rightarrow> real option \<Rightarrow> real list option \<Rightarrow> error + ndval" where
  "parametric_sfr gamma gammainc tau tage pow mass logmass times' =
     (let mass = (case (mass, logmass) of (None, Some lm) \<Rightarrow> Some (10 powr lm) | _ \<Rightarrow> mass);
          tt = (case times' of None \<Rightarrow> Scal tage | Some ts \<Rightarrow> Arr (map (\<lambda>t. tage - t) ts));
          failure = (case times' of
                       None \<Rightarrow> if tau = 0 then Some ZeroDivisionError
                              else if mass = None then Some TypeError else None
                     | Some ts \<Rightarrow> if mass = None then Some TypeError
                              else if tau = 0 then Some ZeroDivisionError else None)
      in case failure of
           Some e \<Rightarrow> Inl e
         | None \<Rightarrow>
             let psi = nd_map (psi_value gamma gammainc tau tage pow (the mass)) tt
             in case zero_where_negative psi tt of
                  Inl e \<Rightarrow> Inl e
                | Inr psi \<Rightarrow> Inr (nd_map (\<lambda>v. v * (1 / 10 ^ 9)) psi))"

subsection \<open>\<open>parametric_mwa\<close> and \<open>parametric_mwa_numerical\<close>\<close>

text \<open>
  \<open>np.linspace(start, stop, n)\<close>: \<open>n\<close> points, the \<open>k\<close>-th at \<open>start + k \<sqdot> step\<close> with
  \<open>step = (stop - start)/(n - 1)\<close>.
\<close>

definition linspace :: "real \<Rightarrow> real \<Rightarrow> nat \<Rightarrow> real list" where
  "linspace start stop n = map (\<lambda>k. start + real k * ((stop - start) / real (n - 1))) [0..<n]"

text \<open>\<open>np.trapz(y, x)\<close>: the sum of \<open>(x[i+1] - x[i]) \<sqdot> (y[i+1] + y[i]) / 2\<close>.\<close>

fun trapz :: "real list \<Rightarrow> real list \<Rightarrow> real" where
  "trapz (y0 # y1 # ys) (x0 # x1 # xs) = (x1 - x0) * (y1 + y0) / 2 + trapz (y1 # ys) (x1 # xs)"
| "trapz ys xs = 0"

text \<open>Lines 113 to 116; every quotient is an array or numpy quotient and raises nothing.\<close>

definition parametric_mwa_numerical :: "real \<Rightarrow> real \<Rightarrow> nat \<Rightarrow> nat \<Rightarrow> real" where
  "parametric_mwa_numerical tau tage pow n =
     (let p = pow + 1;
          t = linspace 0 tage n;
          tavg = trapz (map (\<lambda>t. t ^ p * exp (- t / tau)) t) t
                   / trapz (map (\<lambda>t. t ^ pow * exp (- t / tau)) t) t
      in tage - tavg)"

text \<open>Lines 125 to 127; \<open>tage / tau\<close> is a quotient of Python floats.\<close>

definition parametric_mwa ::
  "(real \<Rightarrow> real) \<Rightarrow> (real \<Rightarrow> real \<Rightarrow> real) \<Rightarrow> real \<Rightarrow> real \<Rightarrow> nat \<Rightarrow> error + real" where
  "parametric_mwa gamma gammainc tau tage pow =
     (if tau = 0 then Inl ZeroDivisionError
      else
        let tt = tage / tau;
            mwt = gammainc (real pow + 2) tt * gamma (real pow + 2) / gammainc (real pow + 1) tt * tau
        in Inr (tage - mwt))"

text \<open>
  The values of the two special functions that the mass-weighted age needs for
  \<open>power\<close> 0 and 1, by their closed forms at an integer shape: \<open>\<Gamma>(n) = (n - 1)!\<close> and
  \<open>P(n, x) = 1 - exp(-x) \<sqdot> (1 + x + \<dots> + x^(n-1)/(n-1)!)\<close> for \<open>x \<ge> 0\<close>. They are facts
  about scipy's functions, taken as a hypothesis where a theorem needs them.
\<close>

definition integer_shape_values :: "(real \<Rightarrow> real) \<Rightarrow> (real \<Rightarrow> real \<Rightarrow> real) \<Rightarrow> bool" where
  "integer_shape_values gamma gammainc =
     (gamma 2 = 1 \<and> gamma 3 = 2 \<and>
      (\<forall>x. 0 \<le> x \<longrightarrow>
           gammainc 1 x = 1 - exp (- x) \<and>
           gammainc 2 x = 1 - (1 + x) * exp (- x) \<and>
           gammainc 3 x = 1 - (1 + x + x\<^sup>2 / 2) * exp (- x)))"

text \<open>
  On a uniform grid of step \<open>h\<close> the trapezoid sums of \<open>t^j \<sqdot> exp(-t/tau)\<close> for \<open>j \<le> 2\<close> are
  the exact integrals with two correction factors in \<open>x = h/tau\<close>, both close to 1.
\<close>

definition alpha :: "real \<Rightarrow> real" where
  "alpha x = x\<^sup>2 * exp (- x) / (1 - exp (- x))\<^sup>2"

definition gfac :: "real \<Rightarrow> real" where
  "gfac x = x * (1 + exp (- x)) / (2 * (1 - exp (- x)))"

subsection \<open>\<open>parametric_cmf\<close>\<close>

text \<open>\<open>ndarray.max()\<close> of a non-empty array.\<close>

definition amax :: "real list \<Rightarrow> real" where
  "amax xs = fold max (tl xs) (hd xs)"

text \<open>Lines 134 to 141, the statements after the \<open>raise\<close>.\<close>

definition parametric_cmf_rest ::
  "(real \<Rightarrow> real \<Rightarrow> real) \<Rightarrow> real \<Rightarrow> real \<Rightarrow> real list option \<Rightarrow> error + real list" where
  "parametric_cmf_rest gammainc tau tage times' =
     (case times' of
        None \<Rightarrow> Inl AttributeError
      | Some ts \<Rightarrow>
          if ts = [] then Inl ValueError
          else if tage > amax ts \<or> tage < 0 then Inr (map (\<lambda>_. 0) ts)
          else
            let tstart = amax ts - tage;
                tt = map (\<lambda>t. (t - tstart) / tau) ts;
                tt = map (\<lambda>x. if x < 0 then 0 else x) tt;
                cmf = map (gammainc 2) tt
            in Inr (map (\<lambda>c. c / last cmf) cmf))"

text \<open>Line 133 raises first; whatever follows runs only if the raise returns.\<close>

definition parametric_cmf ::
  "(real \<Rightarrow> real \<Rightarrow> real) \<Rightarrow> real \<Rightarrow> real \<Rightarrow> real list option \<Rightarrow> error + real list" where
  "parametric_cmf gammainc tau tage times' =
     (case (Inl NotImplementedError :: error + unit) of
        Inl e \<Rightarrow> Inl e
      | Inr _ \<Rightarrow> parametric_cmf_rest gammainc tau tage times')"

subsection \<open>\<open>ratios_to_sfrs\<close> and \<open>nonpar_recent_sfr\<close>\<close>

text \<open>
  \<open>logsfr_ratios_to_masses\<close> lives in \<open>prospect.models.transforms\<close> and is a parameter
  \<open>l2m\<close> of the functions that call it: it receives the log-mass, the squeezed ratios
  and the bin set (\<open>None\<close> when the caller has none) and returns the per-bin masses or
  raises. Its model from the spec follows below.
\<close>

type_synonym mass_transform = "real \<Rightarrow> ndval \<Rightarrow> (real \<times> real) list option \<Rightarrow> error + real list"

definition ratios_to_sfrs ::
  "mass_transform \<Rightarrow> real \<Rightarrow> real list \<Rightarrow> (real \<times> real) list \<Rightarrow> error + real list" where
  "ratios_to_sfrs l2m logmass logsfr_ratios agebins =
     (case l2m logmass (squeeze_vec logsfr_ratios) (Some agebins) of
        Inl e \<Rightarrow> Inl e
      | Inr masses \<Rightarrow>
          let dt = bin_widths agebins
          in bcast2 (/) masses dt)"

text \<open>
  Modelled from the spec: the contract of the external mass transform (section 6 and
  the ratio vector of section 3), which the spec gives for a vector of \<open>N - 1\<close>
  log-ratios and \<open>N\<close> bins. The masses it returns are one per bin, sum to \<open>10^logmass\<close>,
  and the star-formation rate of bin \<open>i\<close> (mass over linear width) is \<open>10^ratio\<^sub>i\<close> times
  that of bin \<open>i + 1\<close>.
\<close>

definition mass_transform_contract ::
  "mass_transform \<Rightarrow> real \<Rightarrow> real list \<Rightarrow> (real \<times> real) list \<Rightarrow> bool" where
  "mass_transform_contract l2m logmass logsfr_ratios agebins =
     (case l2m logmass (Arr logsfr_ratios) (Some agebins) of
        Inl e \<Rightarrow> False
      | Inr masses \<Rightarrow>
          length masses = length agebins \<and>
          sum_list masses = 10 powr logmass \<and>
          (\<forall>i < length logsfr_ratios.
             masses ! i / bin_widths agebins ! i =
             10 powr (logsfr_ratios ! i) * (masses ! Suc i / bin_widths agebins ! Suc i)))"

text \<open>
  Modelled from the spec: the mass transform \<open>logsfr_ratios_to_masses\<close> of
  \<open>prospect.models.transforms\<close>, which is not in the source. Section 6 gives it a scalar
  log-mass, a vector of \<open>N - 1\<close> log-ratios and \<open>N\<close> bins and asks for masses that sum to
  \<open>10^logmass\<close>; by section 3 the ratios and the total fix the masses. The rates of the
  bins are in the proportions \<open>1, 10^(-r\<^sub>0), 10^(-r\<^sub>0 - r\<^sub>1), \<dots>\<close>; the masses are the
  rates times the linear widths, scaled to the total. An argument that is not a
  vector of \<open>N - 1\<close> ratios is outside the signature and raises; among these is the
  0-d value that \<open>np.squeeze\<close> makes of a single ratio, which cannot be indexed
  (\<open>IndexError\<close>). Without a bin set there is nothing to read the bins from.
\<close>

fun rel_rates :: "real \<Rightarrow> real list \<Rightarrow> real list" where
  "rel_rates s [] = [s]"
| "rel_rates s (r # rs) = s # rel_rates (s / 10 powr r) rs"

definition logsfr_ratios_to_masses :: mass_transform where
  "logsfr_ratios_to_masses logmass logsfr_ratios agebins =
     (case agebins of
        None \<Rightarrow> Inl AttributeError
      | Some ab \<Rightarrow>
          (case logsfr_ratios of
             Scal r \<Rightarrow> Inl IndexError
           | Arr rs \<Rightarrow>
               if length rs + 1 \<noteq> length ab then Inl IndexError
               else
                 let coeffs = map2 (*) (rel_rates 1 rs) (bin_widths ab);
                     m1 = 10 powr logmass / sum_list coeffs
                 in Inr (map (\<lambda>c. m1 * c) coeffs)))"

text \<open>\<open>np.clip(x, lo, hi)\<close> is \<open>minimum(maximum(x, lo), hi)\<close>.\<close>

definition clip :: "real \<Rightarrow> real \<Rightarrow> real \<Rightarrow> real" where
  "clip x lo hi = min (max x lo) hi"

text \<open>\<open>np.array\<close> of a list of rows needs rows of one length.\<close>

definition rectangular :: "'a list list \<Rightarrow> bool" where
  "rectangular rows = (\<forall>r \<in> set rows. length r = length (hd rows))"

text \<open>
  Lines 161 to 163: the fractional coverage \<open>ft\<close> of each bin by the window of the last
  \<open>sfr_period\<close> Gyr, from the bin edges converted to Gyr.
\<close>

definition coverage :: "real \<Rightarrow> (real \<times> real) list \<Rightarrow> real list" where
  "coverage sfr_period agebins =
     map (\<lambda>(a0, a1). clip ((sfr_period - a0) / (a1 - a0)) 0 1)
       (map (\<lambda>(lo, hi). (10 powr (lo - 9), 10 powr (hi - 9))) agebins)"

text \<open>
  The result has one entry per ensemble member. For an empty ensemble \<open>np.array([])\<close>
  is one-dimensional, so the product with \<open>ft\<close> broadcasts only for at most one bin and
  the sum over the last axis is the scalar 0.
\<close>

definition nonpar_recent_sfr ::
  "mass_transform \<Rightarrow> real list \<Rightarrow> real list list \<Rightarrow> (real \<times> real) list \<Rightarrow> real \<Rightarrow> error + ndval" where
  "nonpar_recent_sfr l2m logmass logsfr_ratios agebins sfr_period =
     (case collect (map (\<lambda>(logm, sr). l2m logm (squeeze_vec sr) (Some agebins))
                        (zip logmass logsfr_ratios)) of
        Inl e \<Rightarrow> Inl e
      | Inr masses \<Rightarrow>
          if \<not> rectangular masses then Inl ValueError
          else
            let ft = coverage sfr_period agebins
            in if masses = [] then
                 (if length ft \<le> 1 then Inr (Scal (0 / (sfr_period * 10 ^ 9)))
                  else Inl ValueError)
               else
                 case collect (map (\<lambda>row. bcast2 (*) ft row) masses) of
                   Inl e \<Rightarrow> Inl e
                 | Inr prods \<Rightarrow>
                     Inr (Arr (map (\<lambda>p. sum_list p / (sfr_period * 10 ^ 9)) prods)))"

subsection \<open>\<open>sfh_quantiles\<close>\<close>

text \<open>
  \<open>bins\<close> is an array of shape \<open>(M, nbin, 2)\<close>, a list of bin sets in linear units;
  \<open>sfrs\<close> has shape \<open>(M, nbin)\<close>. \<open>a.reshape(m, -1)\<close> cuts the flattened data into \<open>m\<close>
  rows of equal length and raises \<open>ValueError\<close> when \<open>m\<close> is 0 or does not divide the
  size.
\<close>

definition flatten_bins :: "(real \<times> real) list \<Rightarrow> real list" where
  "flatten_bins bs = concat (map (\<lambda>(lo, hi). [lo, hi]) bs)"

text \<open>
  One row of \<open>np.array([sfrs, sfrs]).transpose(1, 2, 0)\<close>, flattened: every rate twice,
  once for each edge of its bin.
\<close>

definition duplicate :: "real list \<Rightarrow> real list" where
  "duplicate row = concat (map (\<lambda>s. [s, s]) row)"

fun take_rows :: "nat \<Rightarrow> nat \<Rightarrow> 'a list \<Rightarrow> 'a list list" where
  "take_rows 0 len xs = []"
| "take_rows (Suc m) len xs = take len xs # take_rows m len (drop len xs)"

definition reshape_rows :: "nat \<Rightarrow> real list \<Rightarrow> error + real list list" where
  "reshape_rows m flat =
     (if m = 0 then Inl ValueError
      else if length flat mod m \<noteq> 0 then Inl ValueError
      else Inr (take_rows m (length flat div m) flat))"

text \<open>
  \<open>numpy.interp\<close> at one point, for sample points \<open>xp\<close> in increasing order (numpy
  does not check the order and promises nothing otherwise). A point beyond the last
  sample gets \<open>right\<close>, one before the first gets \<open>left\<close>; otherwise \<open>j\<close> is the last
  index with \<open>xp[j] \<le> x\<close>, the value is \<open>fp[j]\<close> at the last sample or on a sample
  point, and the straight line through samples \<open>j\<close> and \<open>j + 1\<close> elsewhere.
\<close>

definition interp1 :: "real list \<Rightarrow> real list \<Rightarrow> real \<Rightarrow> real \<Rightarrow> real \<Rightarrow> real" where
  "interp1 xp fp left right x =
     (if x > last xp then right
      else if x < hd xp then left
      else
        let j = length (filter (\<lambda>v. v \<le> x) xp) - 1
        in if j = length xp - 1 then fp ! j
           else if xp ! j = x then fp ! j
           else (fp ! (j + 1) - fp ! j) / (xp ! (j + 1) - xp ! j) * (x - xp ! j) + fp ! j)"

definition interp :: "real list \<Rightarrow> real list \<Rightarrow> real list \<Rightarrow> real \<Rightarrow> real \<Rightarrow> error + real list" where
  "interp xs xp fp left right =
     (if xp = [] then Inl ValueError
      else if length fp \<noteq> length xp then Inl ValueError
      else Inr (map (interp1 xp fp left right) xs))"

text \<open>
  Lines 57 to 59: the array \<open>sf\<close>, one row per ensemble member, each row the member's
  step function sampled at \<open>tvec\<close>.
\<close>

definition sfh_samples ::
  "real list \<Rightarrow> (real \<times> real) list list \<Rightarrow> real list list \<Rightarrow> error + real list list" where
  "sfh_samples tvec bins sfrs =
     (case reshape_rows (length bins) (concat (map flatten_bins bins)) of
        Inl e \<Rightarrow> Inl e
      | Inr tt \<Rightarrow>
          (case reshape_rows (length bins)
                  (concat (map duplicate sfrs)) of
             Inl e \<Rightarrow> Inl e
           | Inr ss \<Rightarrow> collect (map (\<lambda>(t, s). interp tvec t s 0 0) (zip tt ss))))"

text \<open>
  \<open>numpy.percentile\<close> of one non-empty column with the default linear method: the
  value at position \<open>q/100 \<sqdot> (n - 1)\<close> of the sorted column, interpolated between its
  neighbours.
\<close>

definition percentile1 :: "real list \<Rightarrow> real \<Rightarrow> real" where
  "percentile1 vs q =
     (let s = sort vs;
          n = length s;
          vi = q / 100 * real (n - 1);
          lo = nat \<lfloor>vi\<rfloor>;
          hi = min (lo + 1) (n - 1)
      in s ! lo + (s ! hi - s ! lo) * (vi - real lo))"

definition columns :: "nat \<Rightarrow> real list list \<Rightarrow> real list list" where
  "columns n rows = map (\<lambda>j. map (\<lambda>r. r ! j) rows) [0..<n]"

text \<open>
  Modelled from the spec: the weighted-quantile helper \<open>quantile\<close> of
  \<open>prospect.plotting.corner\<close>, which is not in the source. The spec has it take
  samples, fractions in \<open>[0, 1]\<close> and one weight per ensemble member, and compute
  weighted quantiles across the ensemble at each grid point. Line 61 calls it on the
  transposed samples, so every row of its argument holds the members' values at one
  grid point, and the docstring of \<open>sfh_quantiles\<close> gives the result the shape
  \<open>(ntime, nq)\<close>: one row per row of the argument, one entry per fraction. The model
  follows the call and the docstring (section 6 of the spec lists the axes of the
  argument and of the result the other way round). For one row the quantile is read
  off the normalised cumulative weights of the sorted samples by \<open>numpy.interp\<close> with
  its default fill, the first and the last sample.
\<close>

definition weighted_quantile :: "real list \<Rightarrow> real list \<Rightarrow> real list \<Rightarrow> error + real list" where
  "weighted_quantile x q weights =
     (if \<exists>f \<in> set q. f < 0 \<or> 1 < f then Inl ValueError
      else if length weights \<noteq> length x then Inl ValueError
      else
        let pairs = sort_key fst (zip x weights);
            xs = map fst pairs;
            cdf = cumsum (map snd pairs);
            cdf = map (\<lambda>c. c / last cdf) cdf
        in Inr (map (interp1 cdf xs (hd xs) (last xs)) q))"

definition quantile :: "real list list \<Rightarrow> real list \<Rightarrow> real list \<Rightarrow> error + real list list" where
  "quantile xarr q weights = collect (map (\<lambda>x. weighted_quantile x q weights) xarr)"

text \<open>
  Lines 60 to 63. With weights, \<open>quantile\<close> is called on the transposed samples, the
  fractions \<open>q/100\<close> and the weights. Without weights \<open>np.percentile(sf, axis=0, q=q)\<close>
  rejects a percentile outside \<open>[0, 100]\<close> and returns one row per percentile, one
  entry per grid point.
\<close>

definition sfh_quantiles ::
  "real list \<Rightarrow> (real \<times> real) list list \<Rightarrow> real list list \<Rightarrow> real list option \<Rightarrow> real list \<Rightarrow>
     error + real list list" where
  "sfh_quantiles tvec bins sfrs weights q =
     (case sfh_samples tvec bins sfrs of
        Inl e \<Rightarrow> Inl e
      | Inr sf \<Rightarrow>
          (case weights of
             Some w \<Rightarrow> quantile (columns (length tvec) sf) (map (\<lambda>x. x / 100) q) w
           | None \<Rightarrow>
               if \<exists>x \<in> set q. x < 0 \<or> 100 < x then Inl ValueError
               else Inr (map (\<lambda>x. map (\<lambda>col. percentile1 col x) (columns (length tvec) sf)) q)))"

subsection \<open>\<open>params_to_sfh\<close>\<close>

text \<open>
  \<open>params\<close> is a dictionary of one-dimensional sequences (\<open>logsfr_ratios\<close> two-dimensional),
  one entry per ensemble member; a missing key is \<open>None\<close> and reading it raises
  \<open>KeyError\<close>. \<open>time\<close> and \<open>agebins\<close> default to \<open>None\<close>. The members are scalars, passed
  on as Python floats; as numpy scalars they differ only for \<open>tau = 0\<close>, where the
  quotient is non-finite and the \<open>TypeError\<close> of the masked assignment follows.
\<close>

record params =
  p_tau :: "real list option"
  p_tage :: "real list option"
  p_mass :: "real list option"
  p_logmass :: "real list option"
  p_logsfr_ratios :: "real list list option"

datatype sfh_result =
    Parametric "real list" "ndval list" "real list list"
  | NonParametric "(real \<times> real) list" "real list list" cmf_out

text \<open>
  Lines 20 to 29. The call on line 25 passes the grid under the keyword \<open>time\<close>, which
  \<open>parametric_sfr\<close> collects in \<open>**extras\<close>: its \<open>times\<close> stays \<open>None\<close> and \<open>power\<close> is the
  default 1.
\<close>

definition params_to_sfh_parametric ::
  "(real \<Rightarrow> real) \<Rightarrow> (real \<Rightarrow> real \<Rightarrow> real) \<Rightarrow> params \<Rightarrow> real list \<Rightarrow> error + sfh_result" where
  "params_to_sfh_parametric gamma gammainc ps time =
     (case (p_tau ps, p_tage ps, p_mass ps) of
        (Some taus, Some tages, Some masses) \<Rightarrow>
          (case collect (map (\<lambda>(tau, tage, mass).
                    case parametric_sfr gamma gammainc tau tage 1 (Some mass) None None of
                      Inl e \<Rightarrow> Inl e
                    | Inr sfh \<Rightarrow>
                        (case parametric_cmf gammainc tau tage (Some time) of
                           Inl e \<Rightarrow> Inl e
                         | Inr cmf \<Rightarrow> Inr (sfh, cmf)))
                  (zip taus (zip tages masses))) of
             Inl e \<Rightarrow> Inl e
           | Inr rows \<Rightarrow>
               if time = [] then Inl ValueError
               else Inr (Parametric (map (\<lambda>t. amax time - t) time) (map fst rows) (map snd rows)))
      | _ \<Rightarrow> Inl KeyError)"

text \<open>
  Lines 32 to 37. Without a bin set \<open>ratios_to_sfrs\<close> hands \<open>None\<close> to the external
  transform and, if that returns, fails on \<open>agebins[:, 1]\<close> (line 150); for an empty
  ensemble \<open>sfh_to_cmf\<close> fails on the same subscript (line 182). \<open>np.array\<close> of an empty
  list is one-dimensional, so \<open>np.atleast_2d\<close> gives \<open>sfh_to_cmf\<close> one empty row.
\<close>

definition params_to_sfh_nonparametric ::
  "mass_transform \<Rightarrow> params \<Rightarrow> (real \<times> real) list option \<Rightarrow> error + sfh_result" where
  "params_to_sfh_nonparametric l2m ps agebins =
     (case (p_logmass ps, p_logsfr_ratios ps) of
        (Some logmass, Some logsfr_ratios) \<Rightarrow>
          (case collect (map (\<lambda>(logm, sr).
                    case agebins of
                      Some ab \<Rightarrow> ratios_to_sfrs l2m logm sr ab
                    | None \<Rightarrow>
                        (case l2m logm (squeeze_vec sr) None of
                           Inl e \<Rightarrow> Inl e
                         | Inr masses \<Rightarrow> Inl TypeError))
                  (zip logmass logsfr_ratios)) of
             Inl e \<Rightarrow> Inl e
           | Inr sfhs \<Rightarrow>
               if \<not> rectangular sfhs then Inl ValueError
               else
                 (case agebins of
                    None \<Rightarrow> Inl TypeError
                  | Some ab \<Rightarrow>
                      (case sfh_to_cmf (if sfhs = [] then [[]] else sfhs) ab of
                         Inl e \<Rightarrow> Inl e
                       | Inr (ages, cmfs) \<Rightarrow>
                           Inr (NonParametric
                                  (map (\<lambda>(lo, hi). (10 powr (lo - 9), 10 powr (hi - 9))) ab)
                                  sfhs cmfs))))
      | _ \<Rightarrow> Inl KeyError)"

text \<open>Line 18: the path is chosen by the presence of \<open>time\<close> alone.\<close>

definition params_to_sfh ::
  "(real \<Rightarrow> real) \<Rightarrow> (real \<Rightarrow> real \<Rightarrow> real) \<Rightarrow> mass_transform \<Rightarrow>
     params \<Rightarrow> real list option \<Rightarrow> (real \<times> real) list option \<Rightarrow> error + sfh_result" where
  "params_to_sfh gamma gammainc l2m ps time agebins =
     (let parametric = (time \<noteq> None)
      in if parametric then params_to_sfh_parametric gamma gammainc ps (the time)
         else params_to_sfh_nonparametric l2m ps agebins)"

section \<open>Properties\<close>

subsection \<open>Helper lemmas\<close>

lemma length_cumsum_from: "length (cumsum_from acc xs) = length xs"
  by (induction xs arbitrary: acc) auto

lemma last_cumsum_from: "xs \<noteq> [] \<Longrightarrow> last (cumsum_from acc xs) = acc + sum_list xs"
proof (induction xs arbitrary: acc)
  case Nil then show ?case by simp
next
  case (Cons x xs)
  show ?case
  proof (cases xs)
    case Nil then show ?thesis by simp
  next
    case (Cons y ys)
    then have "cumsum_from (acc + x) xs \<noteq> []" by simp
    with Cons.IH[of "acc + x"] Cons show ?thesis by (simp add: add.assoc)
  qed
qed

lemma cumsum_from_lower:
  "\<forall>x \<in> set xs. 0 \<le> x \<Longrightarrow> c \<in> set (cumsum_from acc xs) \<Longrightarrow> acc \<le> c"
proof (induction xs arbitrary: acc)
  case Nil then show ?case by simp
next
  case (Cons x xs)
  from Cons.prems have x0: "0 \<le> x" and rest: "\<forall>y \<in> set xs. 0 \<le> y" by auto
  from Cons.prems(2) consider "c = acc + x" | "c \<in> set (cumsum_from (acc + x) xs)" by auto
  then show ?case
  proof cases
    case 1 with x0 show ?thesis by simp
  next
    case 2
    from Cons.IH[OF rest 2] x0 show ?thesis by simp
  qed
qed

lemma sorted_cumsum_from:
  "\<forall>x \<in> set xs. 0 \<le> x \<Longrightarrow> sorted (cumsum_from acc xs)"
proof (induction xs arbitrary: acc)
  case Nil then show ?case by simp
next
  case (Cons x xs)
  then have rest: "\<forall>y \<in> set xs. 0 \<le> y" by simp
  have "\<forall>c \<in> set (cumsum_from (acc + x) xs). acc + x \<le> c"
    using cumsum_from_lower[OF rest] by blast
  with Cons.IH[OF rest] show ?case by simp
qed

lemma cmf_of_masses_shape:
  assumes ne: "ms \<noteq> []" and nonneg: "\<forall>m \<in> set ms. 0 \<le> m" and total: "0 < sum_list ms"
  shows "length (rev (cmf_of_masses ms)) = length ms + 1"
    and "hd (rev (cmf_of_masses ms)) = 1"
    and "last (rev (cmf_of_masses ms)) = 0"
    and "sorted_wrt (\<ge>) (rev (cmf_of_masses ms))"
proof -
  define cs where "cs = cumsum (rev ms)"
  have cs_ne: "cs \<noteq> []"
    using ne length_cumsum_from[of 0 "rev ms"] by (auto simp: cs_def cumsum_def)
  have last_cs: "last cs = sum_list ms"
    using ne last_cumsum_from[of "rev ms" 0] by (simp add: cs_def cumsum_def sum_list_rev)
  have sorted_cs: "sorted cs"
    unfolding cs_def cumsum_def using nonneg by (intro sorted_cumsum_from) simp
  have lower: "\<forall>c \<in> set cs. 0 \<le> c"
    unfolding cs_def cumsum_def using cumsum_from_lower[of "rev ms" _ 0] nonneg by auto
  define ns where "ns = map (\<lambda>c. c / sum_list ms) cs"
  have unfold: "cmf_of_masses ms = 0 # ns"
    by (simp add: cmf_of_masses_def Let_def cs_def[symmetric] last_cs ns_def)
  have ns_ne: "ns \<noteq> []" using cs_ne by (simp add: ns_def)
  have last_ns: "last ns = 1"
    using cs_ne last_cs total by (simp add: ns_def last_map)
  have mono: "mono (\<lambda>c. c / sum_list ms)"
    using total by (intro monoI) (simp add: divide_right_mono)
  have sorted_ns: "sorted ns"
    unfolding ns_def using sorted_cs mono by (simp add: sorted_map mono_def sorted_wrt_map sorted_wrt_mono_rel[of cs "(\<le>)"])
  have ns_lower: "\<forall>c \<in> set ns. 0 \<le> c"
    using lower total by (auto simp: ns_def)
  have sorted_all: "sorted (0 # ns)" using sorted_ns ns_lower by simp
  show "length (rev (cmf_of_masses ms)) = length ms + 1"
    by (simp add: unfold ns_def cs_def cumsum_def length_cumsum_from)
  show "hd (rev (cmf_of_masses ms)) = 1"
    using ns_ne last_ns by (simp add: unfold hd_rev)
  show "last (rev (cmf_of_masses ms)) = 0"
    by (simp add: unfold)
  show "sorted_wrt (\<ge>) (rev (cmf_of_masses ms))"
    using sorted_all unfolding unfold by (simp only: sorted_wrt_rev) 
qed

lemma collect_map_Inr:
  "\<forall>x \<in> set xs. f x = Inr (g x) \<Longrightarrow> collect (map f xs) = Inr (map g xs)"
  by (induction xs) auto

lemma rows_of_squeeze: "rows_of (squeeze_rows rs) = rs"
  by (auto simp: squeeze_rows_def split: list.splits)

lemma map2_nonneg:
  "\<forall>x \<in> set xs. (0::real) \<le> x \<Longrightarrow> \<forall>y \<in> set ys. 0 \<le> y \<Longrightarrow> \<forall>z \<in> set (map2 (*) xs ys). 0 \<le> z"
  by (auto simp: set_zip)

lemma bin_widths_nonneg:
  "\<forall>(lo, hi) \<in> set agebins. lo \<le> hi \<Longrightarrow> \<forall>w \<in> set (bin_widths agebins). 0 \<le> w"
  by (auto simp: bin_widths_def)

lemma powr_m2: "(10::real) powr (-2) = 1/100" by (simp add: powr_minus_divide)
lemma powr_m1: "(10::real) powr (-1) = 1/10" by (simp add: powr_minus_divide)

lemma collect_list_all2:
  "list_all2 (\<lambda>x y. f x = Inr y \<and> P y) xs ys \<Longrightarrow> collect (map f xs) = Inr ys"
  by (induction xs ys rule: list_all2_induct) auto

lemma list_all2_rhs:
  "list_all2 (\<lambda>x y. f x = Inr y \<and> P y) xs ys \<Longrightarrow> \<forall>y \<in> set ys. P y"
  by (induction xs ys rule: list_all2_induct) auto

lemma rectangular_same_length:
  "\<forall>r \<in> set rows. length r = n \<Longrightarrow> rectangular rows"
  by (cases rows) (auto simp: rectangular_def)

lemma sum_list_zero_weights:
  "length ws = length ms \<Longrightarrow> \<forall>w \<in> set ws. w = 0 \<Longrightarrow> sum_list (map2 (*) ws ms) = (0::real)"
  by (induction ws ms rule: list_induct2) auto

lemma coverage_outside:
  assumes "\<forall>(lo, hi) \<in> set agebins. sfr_period \<le> 10 powr (lo - 9) \<and> lo < hi"
  shows "\<forall>w \<in> set (coverage sfr_period agebins). w = 0"
proof -
  have "clip ((sfr_period - 10 powr (lo - 9)) / (10 powr (hi - 9) - 10 powr (lo - 9))) 0 1 = 0"
    if "sfr_period \<le> 10 powr (lo - 9)" and "lo < hi" for lo hi :: real
  proof -
    have "10 powr (lo - 9) < (10::real) powr (hi - 9)" using that(2) by simp
    then have "(sfr_period - 10 powr (lo - 9)) / (10 powr (hi - 9) - 10 powr (lo - 9)) \<le> 0"
      using that(1) by (simp add: divide_le_0_iff)
    then show ?thesis by (simp add: clip_def)
  qed
  with assms show ?thesis by (auto simp: coverage_def)
qed

lemma coverage_full:
  assumes "lo < hi"
  shows "coverage (10 powr (hi - 9)) [(lo, hi)] = [1]"
proof -
  have "10 powr (lo - 9) < (10::real) powr (hi - 9)" using assms by simp
  then have "10 powr (hi - 9) - 10 powr (lo - 9) \<noteq> (0::real)" by linarith
  then have "(10 powr (hi - 9) - 10 powr (lo - 9)) / (10 powr (hi - 9) - 10 powr (lo - 9)) = (1::real)"
    by (rule divide_self)
  then show ?thesis by (simp add: coverage_def clip_def)
qed

lemma nonpar_recent_sfr_run:
  assumes ext: "list_all2 (\<lambda>(logm, sr) ms. l2m logm (squeeze_vec sr) (Some agebins) = Inr ms
                    \<and> length ms = length agebins) (zip logmass logsfr_ratios) masses"
    and ne: "masses \<noteq> []"
  shows "nonpar_recent_sfr l2m logmass logsfr_ratios agebins sfr_period =
     Inr (Arr (map (\<lambda>ms. sum_list (map2 (*) (coverage sfr_period agebins) ms) / (sfr_period * 10 ^ 9))
               masses))"
proof -
  let ?f = "\<lambda>(logm, sr). l2m logm (squeeze_vec sr) (Some agebins)"
  let ?ft = "coverage sfr_period agebins"
  have ext': "list_all2 (\<lambda>x ms. ?f x = Inr ms \<and> length ms = length agebins)
      (zip logmass logsfr_ratios) masses"
    using ext by (simp add: case_prod_unfold)
  have coll: "collect (map ?f (zip logmass logsfr_ratios)) = Inr masses"
    by (rule collect_list_all2[OF ext'])
  have lens: "\<forall>ms \<in> set masses. length ms = length agebins"
    by (rule list_all2_rhs[OF ext'])
  have rect: "rectangular masses" by (rule rectangular_same_length[OF lens])
  have len_ft: "length ?ft = length agebins" by (simp add: coverage_def)
  have prods: "collect (map (\<lambda>row. bcast2 (*) ?ft row) masses) = Inr (map (\<lambda>row. map2 (*) ?ft row) masses)"
    using lens by (intro collect_map_Inr) (simp add: bcast2_def len_ft)
  show ?thesis
    unfolding nonpar_recent_sfr_def coll Let_def
    using rect ne prods by (simp add: o_def)
qed
















subsection \<open>The cumulative mass fraction curve\<close>

text \<open>
  Claim C1, as the code has it. For an ensemble of non-negative star-formation rates
  on \<open>N \<ge> 1\<close> bins with ordered edges, every member with positive total formed mass,
  \<open>sfh_to_cmf\<close> returns an age grid of \<open>N + 1\<close> points (the lower edges and the last
  upper edge, in Gyr) and, for every member, \<open>N + 1\<close> cumulative mass fractions that
  start at 1, end at 0 and never increase along the age axis.
\<close>

theorem sfh_to_cmf_curve:
  assumes bins: "agebins \<noteq> []"
    and shape: "\<forall>row \<in> set sfrs. length row = length agebins"
    and sfr_nonneg: "\<forall>row \<in> set sfrs. \<forall>s \<in> set row. 0 \<le> s"
    and edges: "\<forall>(lo, hi) \<in> set agebins. lo \<le> hi"
    and total: "\<forall>row \<in> set sfrs. 0 < sum_list (map2 (*) row (bin_widths agebins))"
  shows "\<exists>ages out. sfh_to_cmf sfrs agebins = Inr (ages, out) \<and>
           ages = map (\<lambda>(lo, hi). 10 powr (lo - 9)) agebins @ [10 powr (snd (last agebins) - 9)] \<and>
           length ages = length agebins + 1 \<and>
           length (rows_of out) = length sfrs \<and>
           (\<forall>c \<in> set (rows_of out).
              length c = length agebins + 1 \<and> hd c = 1 \<and> last c = 0 \<and> sorted_wrt (\<ge>) c)"
proof -
  let ?dt = "bin_widths agebins"
  let ?ms = "map (\<lambda>row. map2 (*) row ?dt) sfrs"
  have len_dt: "length ?dt = length agebins" by (simp add: bin_widths_def)
  have coll: "collect (map (\<lambda>row. bcast2 (*) row ?dt) sfrs) = Inr ?ms"
    using shape by (intro collect_map_Inr) (simp add: bcast2_def len_dt)
  have row_len: "\<forall>r \<in> set ?ms. length r = length agebins"
    using shape by (auto simp: len_dt)
  have no_empty: "\<not> (\<exists>r \<in> set ?ms. r = [])"
  proof
    assume "\<exists>r \<in> set ?ms. r = []"
    then obtain r where "r \<in> set ?ms" "r = []" by blast
    with row_len have "length agebins = 0" by fastforce
    with bins show False by simp
  qed
  have ages_eq: "map fst (map (\<lambda>(lo, hi). (10 powr (lo - 9), 10 powr (hi - 9))) agebins)
      @ [snd (last (map (\<lambda>(lo, hi). (10 powr (lo - 9), 10 powr (hi - 9))) agebins))]
    = map (\<lambda>(lo, hi). 10 powr (lo - 9)) agebins @ [10 powr (snd (last agebins) - 9)]"
    using bins by (auto simp: last_map split: prod.splits)
  let ?out = "squeeze_rows (map rev (map cmf_of_masses ?ms))"
  have eq: "sfh_to_cmf sfrs agebins =
      Inr (map (\<lambda>(lo, hi). 10 powr (lo - 9)) agebins @ [10 powr (snd (last agebins) - 9)], ?out)"
    unfolding sfh_to_cmf_def Let_def coll using no_empty bins ages_eq by simp
  have rows: "rows_of ?out = map (\<lambda>ms. rev (cmf_of_masses ms)) ?ms"
    by (simp add: rows_of_squeeze)
  have each: "length c = length agebins + 1 \<and> hd c = 1 \<and> last c = 0 \<and> sorted_wrt (\<ge>) c"
    if "c \<in> set (rows_of ?out)" for c
  proof -
    from that rows obtain row where row: "row \<in> set sfrs"
      and c: "c = rev (cmf_of_masses (map2 (*) row ?dt))" by auto
    let ?m = "map2 (*) row ?dt"
    have ne: "?m \<noteq> []" using row shape bins len_dt by (cases row; cases ?dt) auto
    have nn: "\<forall>m \<in> set ?m. 0 \<le> m"
      using map2_nonneg[of row ?dt] sfr_nonneg row bin_widths_nonneg[OF edges] by blast
    have tot: "0 < sum_list ?m" using total row by blast
    have len: "length ?m = length agebins" using row shape len_dt by simp
    from cmf_of_masses_shape[OF ne nn tot] len show ?thesis unfolding c by simp
  qed
  show ?thesis
    using eq rows each by (intro exI[of _ "map (\<lambda>(lo, hi). 10 powr (lo - 9)) agebins @ [10 powr (snd (last agebins) - 9)]"] exI[of _ ?out]) (simp add: rows_of_squeeze)
qed

text \<open>
  The hypotheses of the theorem hold for a constant rate on the bins 10 to 100 Myr and
  100 Myr to 1 Gyr.
\<close>

theorem sfh_to_cmf_curve_witness:
  "[(7, 8), (8, 9)] \<noteq> ([] :: (real \<times> real) list) \<and>
   length [1, 1 :: real] = length [(7, 8 :: real), (8, 9 :: real)] \<and>
   (0 :: real) \<le> 1 \<and> (7 :: real) \<le> 8 \<and> (8 :: real) \<le> 9 \<and>
   0 < sum_list (map2 (*) [1, 1] (bin_widths [(7, 8), (8, 9)])) \<and>
   (\<exists>ages out. sfh_to_cmf [[1, 1]] [(7, 8), (8, 9)] = Inr (ages, out) \<and>
      length ages = 3 \<and> length (rows_of out) = 1 \<and>
      (\<forall>c \<in> set (rows_of out). length c = 3 \<and> hd c = 1 \<and> last c = 0 \<and> sorted_wrt (\<ge>) c))"
  using sfh_to_cmf_curve [of "[(7, 8), (8, 9)]" "[[1, 1]]"]
  by (auto simp: bin_widths_def eval_nat_numeral)

text \<open>
  Claim C1 as stated (first value 0, last value 1, non-decreasing) fails. On the bins
  \<open>[7, 8]\<close> and \<open>[8, 9]\<close> the constant member \<open>[1, 1]\<close> gets the curve \<open>[1, 10/11, 0]\<close>,
  which starts at 1 and falls; the member \<open>[-1, 3]\<close>, whose total formed mass is
  positive, gets \<open>[1, 30/29, 0]\<close>, which is not monotone in either direction.
\<close>

theorem sfh_to_cmf_counterexample:
  "sfh_to_cmf [[1, 1], [-1, 3]] [(7, 8), (8, 9)] =
     Inr ([1/100, 1/10, 1], Rows [[1, 10/11, 0], [1, 30/29, 0]])"
  by (simp add: sfh_to_cmf_def bin_widths_def bcast2_def cmf_of_masses_def cumsum_def
      squeeze_rows_def Let_def powr_m2 powr_m1)

subsection \<open>The parametric star-formation rate\<close>

text \<open>
  Claim C3 fails on the code. With the documented call \<open>tau = 4\<close>, \<open>tage = 13.7\<close>,
  \<open>power = 1\<close>, a mass of \<open>10^10\<close> and no \<open>times\<close>, \<open>psi\<close> is a scalar and the masked
  assignment \<open>psi[tt < 0] = 0\<close> raises \<open>TypeError\<close>: no rate is returned.
\<close>

theorem parametric_sfr_current_TypeError:
  "parametric_sfr gamma gammainc 4 (137 / 10) 1 (Some (10 ^ 10)) None None = Inl TypeError"
  by (simp add: parametric_sfr_def)

lemma psi_value_scaled:
  "psi_value gamma gammainc tau tage pow mass tt * (1 / 10 ^ 9) =
     1 / 10 ^ 9 * mass * (tt / tau) ^ pow * exp (- tt / tau)
       / (tau * gamma (real pow + 1) * gammainc (real pow + 1) (tage / tau))"
  by (simp add: psi_value_def Let_def)

lemma masked_scaled_map:
  "map (\<lambda>v. v * c) (map2 (\<lambda>v t. if t < 0 then 0 else v) (map f (map h ts)) (map h ts)) =
     map (\<lambda>t. if h t < (0::real) then 0 else f (h t) * (c::real)) ts"
  by (induction ts) simp_all

text \<open>
  Claim C4. For scalar \<open>tau > 0\<close> and \<open>tage \<ge> 0\<close>, a given mass and a vector of
  lookback times, \<open>parametric_sfr\<close> returns at each time \<open>t\<close> the value
  \<open>1e-9 \<sqdot> mass \<sqdot> ((tage - t)/tau)^power \<sqdot> exp(-(tage - t)/tau) /
  (tau \<sqdot> \<Gamma>(power+1) \<sqdot> P(power+1, tage/tau))\<close>, and 0 where \<open>tage - t < 0\<close>.
  Both sides divide by the same normalisation; where it vanishes numpy yields a
  non-finite value and the equation says nothing about the code.
\<close>

theorem parametric_sfr_values:
  assumes "0 < tau" and "0 \<le> tage"
  shows "parametric_sfr gamma gammainc tau tage pow (Some mass) logmass (Some ts) =
     Inr (Arr (map (\<lambda>t. if tage - t < 0 then 0
                        else 1 / 10 ^ 9 * mass * ((tage - t) / tau) ^ pow * exp (- (tage - t) / tau)
                             / (tau * gamma (real pow + 1) * gammainc (real pow + 1) (tage / tau)))
                   ts))"
proof -
  let ?tt = "map (\<lambda>t. tage - t) ts"
  let ?psi = "map (psi_value gamma gammainc tau tage pow mass) ?tt"
  have run: "parametric_sfr gamma gammainc tau tage pow (Some mass) logmass (Some ts) =
      Inr (Arr (map (\<lambda>v. v * (1 / 10 ^ 9)) (map2 (\<lambda>v t. if t < 0 then 0 else v) ?psi ?tt)))"
    using assms by (simp add: parametric_sfr_def Let_def)
  show ?thesis
    unfolding run masked_scaled_map psi_value_scaled ..
qed

text \<open>
  The hypotheses hold at \<open>tau = 1\<close>, \<open>tage = 2\<close>, \<open>power = 0\<close>, where \<open>\<Gamma>(1) = 1\<close> and
  \<open>P(1, x) = 1 - exp(-x)\<close>.
\<close>

theorem parametric_sfr_values_witness:
  "(0::real) < 1 \<and> (0::real) \<le> 2 \<and>
   parametric_sfr (\<lambda>x. 1) (\<lambda>a x. 1 - exp (- x)) 1 2 0 (Some 1) None (Some [1, 3]) =
     Inr (Arr [1 / 10 ^ 9 * exp (- 1) / (1 - exp (- 2)), 0])"
  using parametric_sfr_values [of 1 2 "\<lambda>x. 1" "\<lambda>a x. 1 - exp (- x)" 0 1 None "[1, 3]"]
  by simp

subsection \<open>The parametric cumulative mass fraction\<close>

text \<open>
  Claim C5. Every call of \<open>parametric_cmf\<close>, whatever its arguments, raises
  \<open>NotImplementedError\<close> and returns no value.
\<close>

theorem parametric_cmf_not_implemented:
  "parametric_cmf gammainc tau tage times' = Inl NotImplementedError"
  by (simp add: parametric_cmf_def)

subsection \<open>Rates per bin\<close>

text \<open>
  The modelled transform keeps its contract on every vector of \<open>N - 1\<close> ratios and \<open>N\<close>
  bins of positive width.
\<close>

lemma length_rel_rates: "length (rel_rates s rs) = length rs + 1"
  by (induction rs arbitrary: s) auto

lemma hd_rel_rates: "rel_rates s rs ! 0 = s"
  by (cases rs) auto

lemma rel_rates_pos: "0 < s \<Longrightarrow> \<forall>c \<in> set (rel_rates s rs). 0 < c"
proof (induction rs arbitrary: s)
  case Nil then show ?case by simp
next
  case (Cons r rs)
  have "0 < s / 10 powr r" using Cons.prems by simp
  from Cons.IH[OF this] Cons.prems show ?case by simp
qed

lemma rel_rates_step:
  "i < length rs \<Longrightarrow> rel_rates s rs ! i = 10 powr (rs ! i) * rel_rates s rs ! Suc i"
proof (induction rs arbitrary: s i)
  case Nil then show ?case by simp
next
  case (Cons r rs)
  show ?case
  proof (cases i)
    case 0
    then show ?thesis by (simp add: hd_rel_rates)
  next
    case (Suc k)
    with Cons.prems have "k < length rs" by simp
    from Cons.IH[OF this] show ?thesis by (simp add: Suc)
  qed
qed

lemma sum_list_pos_real:
  "xs \<noteq> [] \<Longrightarrow> \<forall>x \<in> set xs. (0::real) < x \<Longrightarrow> 0 < sum_list xs"
proof (induction xs)
  case Nil then show ?case by simp
next
  case (Cons x xs)
  then show ?case by (cases xs) (auto intro: add_pos_pos)
qed

lemma bin_widths_pos:
  "\<forall>(lo, hi) \<in> set ab. lo < hi \<Longrightarrow> \<forall>w \<in> set (bin_widths ab). 0 < w"
  by (auto simp: bin_widths_def)

lemma logsfr_ratios_to_masses_contract:
  assumes len: "length rs + 1 = length ab"
    and edges: "\<forall>(lo, hi) \<in> set ab. lo < hi"
  shows "mass_transform_contract logsfr_ratios_to_masses logmass rs ab"
proof -
  define rel where "rel = rel_rates 1 rs"
  define dt where "dt = bin_widths ab"
  define coeffs where "coeffs = map2 (*) rel dt"
  define m1 where "m1 = 10 powr logmass / sum_list coeffs"
  have lrel: "length rel = length ab" using len by (simp add: rel_def length_rel_rates)
  have ldt: "length dt = length ab" by (simp add: dt_def bin_widths_def)
  have lco: "length coeffs = length ab" by (simp add: coeffs_def lrel ldt)
  have rel_pos: "\<forall>c \<in> set rel. 0 < c" unfolding rel_def by (rule rel_rates_pos) simp
  have dt_pos: "\<forall>w \<in> set dt. 0 < w" unfolding dt_def by (rule bin_widths_pos[OF edges])
  have co_pos: "\<forall>c \<in> set coeffs. 0 < c"
    using rel_pos dt_pos by (auto simp: coeffs_def set_zip)
  have "coeffs \<noteq> []" using lco len by auto
  then have tot: "0 < sum_list coeffs" using co_pos by (rule sum_list_pos_real)
  have run: "logsfr_ratios_to_masses logmass (Arr rs) (Some ab) = Inr (map (\<lambda>c. m1 * c) coeffs)"
    using len by (simp add: logsfr_ratios_to_masses_def Let_def rel_def dt_def coeffs_def m1_def)
  have total: "sum_list (map (\<lambda>c. m1 * c) coeffs) = 10 powr logmass"
  proof -
    have "sum_list (map (\<lambda>c. m1 * c) coeffs) = m1 * sum_list coeffs"
      by (simp add: sum_list_const_mult)
    also have "\<dots> = 10 powr logmass" using tot by (simp add: m1_def)
    finally show ?thesis .
  qed
  have rate: "map (\<lambda>c. m1 * c) coeffs ! i / dt ! i = m1 * rel ! i" if "i < length ab" for i
  proof -
    have "0 < dt ! i" using dt_pos that ldt by (simp add: all_set_conv_all_nth)
    moreover have "coeffs ! i = rel ! i * dt ! i" using that lrel ldt by (simp add: coeffs_def)
    ultimately show ?thesis using that lco by simp
  qed
  have ratio: "map (\<lambda>c. m1 * c) coeffs ! i / dt ! i =
      10 powr (rs ! i) * (map (\<lambda>c. m1 * c) coeffs ! Suc i / dt ! Suc i)" if "i < length rs" for i
  proof -
    have i: "i < length ab" "Suc i < length ab" using that len by simp_all
    have "rel ! i = 10 powr (rs ! i) * rel ! Suc i"
      unfolding rel_def by (rule rel_rates_step[OF that])
    then show ?thesis unfolding rate[OF i(1)] rate[OF i(2)] by simp
  qed
  show ?thesis
    unfolding mass_transform_contract_def run
    using total ratio lco by (simp add: dt_def)
qed

text \<open>
  Claim C7 fails on the code. Line 148 squeezes the single ratio of a two-bin call to
  a 0-d value before it reaches the transform, whose contract is for a vector of
  \<open>N - 1\<close> ratios; the transform cannot index it and raises. For a log-mass of 1, the
  ratio 0 and the equal-width bins from 1 to 10 and from 10 to 19 years no rate is
  returned.
\<close>

theorem ratios_to_sfrs_two_bins_IndexError:
  "ratios_to_sfrs logsfr_ratios_to_masses 1 [0] [(0, 1), (1, log 10 19)] = Inl IndexError"
  by (simp add: ratios_to_sfrs_def squeeze_vec_def logsfr_ratios_to_masses_def)

text \<open>
  The same holds for every single ratio and every bin set. Had the vector been passed
  as it is, the two bins would get the equal rates the claim states; with three bins
  the squeeze leaves the vector alone and the rates are equal.
\<close>

lemma ratios_to_sfrs_single_ratio:
  "ratios_to_sfrs logsfr_ratios_to_masses logmass [r] agebins = Inl IndexError"
  by (simp add: ratios_to_sfrs_def squeeze_vec_def logsfr_ratios_to_masses_def)

lemma two_bins_unsqueezed:
  "logsfr_ratios_to_masses 1 (Arr [0]) (Some [(0, 1), (1, log 10 19)]) = Inr [5, 5]"
  "bcast2 (/) [5, 5] (bin_widths [(0, 1), (1, log 10 19)]) = Inr [5 / 9, 5 / 9]"
  by (simp_all add: logsfr_ratios_to_masses_def bin_widths_def bcast2_def)

lemma ratios_to_sfrs_three_equal_bins:
  "ratios_to_sfrs logsfr_ratios_to_masses 1 [0, 0] [(0, 1), (1, log 10 19), (log 10 19, log 10 28)] =
     Inr [10 / 27, 10 / 27, 10 / 27]"
  by (simp add: ratios_to_sfrs_def squeeze_vec_def logsfr_ratios_to_masses_def bin_widths_def
      bcast2_def)

subsection \<open>The recent star-formation rate\<close>

text \<open>
  Claim C8. The bins are \<open>(lo0, hi0)\<close>, the youngest, followed by older bins that start
  at or after \<open>hi0\<close>, each of positive width; the external transform returns one mass per
  bin for every member. With \<open>sfr_period\<close> equal to the youngest bin's upper edge in Gyr,
  \<open>nonpar_recent_sfr\<close> returns for every member the mass of the youngest bin alone,
  divided by the length of the window in years.
\<close>

theorem nonpar_recent_sfr_youngest_bin:
  assumes first: "lo0 < hi0"
    and older: "\<forall>(lo, hi) \<in> set rest. hi0 \<le> lo \<and> lo < hi"
    and period: "sfr_period = 10 powr (hi0 - 9)"
    and ext: "list_all2 (\<lambda>(logm, sr) ms. l2m logm (squeeze_vec sr) (Some ((lo0, hi0) # rest)) = Inr ms
                    \<and> length ms = length ((lo0, hi0) # rest)) (zip logmass logsfr_ratios) masses"
    and ne: "masses \<noteq> []"
  shows "nonpar_recent_sfr l2m logmass logsfr_ratios ((lo0, hi0) # rest) sfr_period =
     Inr (Arr (map (\<lambda>ms. hd ms / (sfr_period * 10 ^ 9)) masses))"
proof -
  let ?bins = "(lo0, hi0) # rest"
  have outside: "\<forall>(lo, hi) \<in> set rest. sfr_period \<le> 10 powr (lo - 9) \<and> lo < hi"
    using older period by auto
  have cov: "coverage sfr_period ?bins = 1 # coverage sfr_period rest"
    using coverage_full[OF first] period by (simp add: coverage_def)
  have zero: "\<forall>w \<in> set (coverage sfr_period rest). w = 0"
    by (rule coverage_outside[OF outside])
  have len_cov: "length (coverage sfr_period rest) = length rest" by (simp add: coverage_def)
  have lens: "\<forall>ms \<in> set masses. length ms = length ?bins"
    using list_all2_rhs[of "\<lambda>(logm, sr). l2m logm (squeeze_vec sr) (Some ?bins)"
        "\<lambda>ms. length ms = length ?bins" "zip logmass logsfr_ratios" masses] ext
    by (simp add: case_prod_unfold)
  have each: "sum_list (map2 (*) (coverage sfr_period ?bins) ms) = hd ms" if "ms \<in> set masses" for ms
  proof -
    from that lens have "length ms = Suc (length rest)" by simp
    then obtain m ms' where ms: "ms = m # ms'" and len': "length ms' = length rest"
      by (cases ms) auto
    have "sum_list (map2 (*) (coverage sfr_period rest) ms') = 0"
      using sum_list_zero_weights[of "coverage sfr_period rest" ms'] len' len_cov zero by simp
    then show ?thesis by (simp add: cov ms)
  qed
  have "map (\<lambda>ms. sum_list (map2 (*) (coverage sfr_period ?bins) ms) / (sfr_period * 10 ^ 9)) masses
      = map (\<lambda>ms. hd ms / (sfr_period * 10 ^ 9)) masses"
    using each by (intro map_cong) simp_all
  moreover have "nonpar_recent_sfr l2m logmass logsfr_ratios ?bins sfr_period =
     Inr (Arr (map (\<lambda>ms. sum_list (map2 (*) (coverage sfr_period ?bins) ms) / (sfr_period * 10 ^ 9))
               masses))"
    using ext ne by (rule nonpar_recent_sfr_run)
  ultimately show ?thesis by simp
qed

text \<open>
  The hypotheses hold for the bins \<open>[7, 8]\<close> and \<open>[8, 9]\<close>, a window of 0.1 Gyr and one
  member with masses 3 and 5.
\<close>

theorem nonpar_recent_sfr_youngest_bin_witness:
  "(7 :: real) < 8 \<and> (8 :: real) \<le> 8 \<and> (8 :: real) < 9 \<and> (1 / 10 :: real) = 10 powr (8 - 9) \<and>
   list_all2 (\<lambda>(logm, sr) ms. (\<lambda>a b c. Inr [3, 5]) logm (squeeze_vec sr) (Some [(7, 8), (8, 9)]) = (Inr ms :: error + real list)
                \<and> length ms = length [(7 :: real, 8 :: real), (8, 9)]) (zip [1 :: real] [[0 :: real]]) [[3, 5]] \<and>
   [[3, 5 :: real]] \<noteq> [] \<and>
   nonpar_recent_sfr (\<lambda>a b c. Inr [3, 5]) [1] [[0]] [(7, 8), (8, 9)] (1 / 10) = Inr (Arr [3 / 10 ^ 8])"
  using nonpar_recent_sfr_youngest_bin [of 7 8 "[(8, 9)]" "1 / 10" "\<lambda>a b c. Inr [3, 5]" "[1]" "[[0]]" "[[3, 5]]"]
  by (simp add: powr_minus_divide)

text \<open>
  Claim C10. For a positive \<open>sfr_period\<close> that does not exceed the lower edge (in Gyr)
  of any bin, bins of positive width and an external transform that returns one mass
  per bin for every member, \<open>nonpar_recent_sfr\<close> returns 0 for every member, and no
  error.
\<close>

theorem nonpar_recent_sfr_below_bins:
  assumes positive: "0 < sfr_period"
    and below: "\<forall>(lo, hi) \<in> set agebins. sfr_period \<le> 10 powr (lo - 9) \<and> lo < hi"
    and ext: "list_all2 (\<lambda>(logm, sr) ms. l2m logm (squeeze_vec sr) (Some agebins) = Inr ms
                    \<and> length ms = length agebins) (zip logmass logsfr_ratios) masses"
    and ne: "masses \<noteq> []"
  shows "nonpar_recent_sfr l2m logmass logsfr_ratios agebins sfr_period =
     Inr (Arr (map (\<lambda>ms. 0) masses))"
proof -
  have zero: "\<forall>w \<in> set (coverage sfr_period agebins). w = 0"
    by (rule coverage_outside[OF below])
  have len_cov: "length (coverage sfr_period agebins) = length agebins" by (simp add: coverage_def)
  have lens: "\<forall>ms \<in> set masses. length ms = length agebins"
    using list_all2_rhs[of "\<lambda>(logm, sr). l2m logm (squeeze_vec sr) (Some agebins)"
        "\<lambda>ms. length ms = length agebins" "zip logmass logsfr_ratios" masses] ext
    by (simp add: case_prod_unfold)
  have each: "sum_list (map2 (*) (coverage sfr_period agebins) ms) = 0" if "ms \<in> set masses" for ms
    using sum_list_zero_weights[of "coverage sfr_period agebins" ms] that lens len_cov zero by simp
  have "map (\<lambda>ms. sum_list (map2 (*) (coverage sfr_period agebins) ms) / (sfr_period * 10 ^ 9)) masses
      = map (\<lambda>ms. 0) masses"
    using each by (intro map_cong) simp_all
  moreover have "nonpar_recent_sfr l2m logmass logsfr_ratios agebins sfr_period =
     Inr (Arr (map (\<lambda>ms. sum_list (map2 (*) (coverage sfr_period agebins) ms) / (sfr_period * 10 ^ 9))
               masses))"
    using ext ne by (rule nonpar_recent_sfr_run)
  ultimately show ?thesis by simp
qed

text \<open>
  The hypotheses hold for the bins \<open>[8, 9]\<close> and \<open>[9, 10]\<close> and a window of 0.01 Gyr.
\<close>

theorem nonpar_recent_sfr_below_bins_witness:
  "(0 :: real) < 1 / 100 \<and>
   (1 / 100 :: real) \<le> 10 powr (8 - 9) \<and> (8 :: real) < 9 \<and>
   (1 / 100 :: real) \<le> 10 powr (9 - 9) \<and> (9 :: real) < 10 \<and>
   list_all2 (\<lambda>(logm, sr) ms. (\<lambda>a b c. Inr [3, 5]) logm (squeeze_vec sr) (Some [(8, 9), (9, 10)]) = (Inr ms :: error + real list)
                \<and> length ms = length [(8 :: real, 9 :: real), (9, 10)]) (zip [1 :: real] [[0 :: real]]) [[3, 5]] \<and>
   [[3, 5 :: real]] \<noteq> [] \<and>
   nonpar_recent_sfr (\<lambda>a b c. Inr [3, 5]) [1] [[0]] [(8, 9), (9, 10)] (1 / 100) = Inr (Arr [0])"
  using nonpar_recent_sfr_below_bins [of "1 / 100" "[(8, 9), (9, 10)]" "\<lambda>a b c. Inr [3, 5]" "[1]" "[[0]]" "[[3, 5]]"]
  by (simp add: powr_minus_divide)

subsection \<open>Quantiles of an ensemble\<close>




text \<open>Without the weight the same call returns three rows of two entries.\<close>

lemma sfh_quantiles_unweighted_same_input:
  "sfh_quantiles [1 / 2, 3] [[(0, 1), (1, 2)]] [[3, 5]] None [16, 50, 84] =
     Inr [[3, 0], [3, 0], [3, 0]]"
  by (simp add: sfh_quantiles_def sfh_samples_def reshape_rows_def flatten_bins_def duplicate_def
      interp_def interp1_def columns_def percentile1_def)

subsection \<open>The dispatcher\<close>

text \<open>
  Claim C2, as the code has it. The path is chosen by the time grid alone. With both a
  time grid and a bin set, \<open>params_to_sfh\<close> does exactly what it does with the time grid
  only: the bin set is never read. With neither, every call ends in an error: a
  missing key, an error of the external transform, or the \<open>TypeError\<close> of subscripting
  the missing bin set.
\<close>

theorem params_to_sfh_dispatch:
  "params_to_sfh gamma gammainc l2m ps (Some time) (Some agebins) =
     params_to_sfh gamma gammainc l2m ps (Some time) None \<and>
   (\<exists>e. params_to_sfh gamma gammainc l2m ps None None = Inl e)"
proof
  show "params_to_sfh gamma gammainc l2m ps (Some time) (Some agebins) =
     params_to_sfh gamma gammainc l2m ps (Some time) None"
    by (simp add: params_to_sfh_def)
next
  show "\<exists>e. params_to_sfh gamma gammainc l2m ps None None = Inl e"
    by (simp add: params_to_sfh_def params_to_sfh_nonparametric_def
        split: option.splits sum.splits)
qed

text \<open>
  Claim C2 as stated fails: with both a time grid and a bin set, and an ensemble of no
  members, the call returns the parametric result and signals nothing.
\<close>

theorem params_to_sfh_counterexample:
  "params_to_sfh (\<lambda>x. 1) (\<lambda>a x. 1) (\<lambda>logm sr bins. Inl ValueError)
     \<lparr>p_tau = Some [], p_tage = Some [], p_mass = Some [], p_logmass = None, p_logsfr_ratios = None\<rparr>
     (Some [0, 1]) (Some [(7, 8), (8, 9)]) =
   Inr (Parametric [1, 0] [] [])"
  by (simp add: params_to_sfh_def params_to_sfh_parametric_def amax_def)

text \<open>
  With both inputs and one scalar member the parametric path is taken as well, and
  ends in the \<open>TypeError\<close> of \<open>parametric_sfr\<close> called without \<open>times\<close>.
\<close>

lemma params_to_sfh_both_scalar_member:
  "params_to_sfh (\<lambda>x. 1) (\<lambda>a x. 1) (\<lambda>logm sr bins. Inl ValueError)
     \<lparr>p_tau = Some [4], p_tage = Some [13], p_mass = Some [1], p_logmass = None, p_logsfr_ratios = None\<rparr>
     (Some [0, 1]) (Some [(7, 8), (8, 9)]) = Inl TypeError"
  by (simp add: params_to_sfh_def params_to_sfh_parametric_def amax_def parametric_sfr_def)

subsection \<open>The mass-weighted age\<close>

text \<open>
  The trapezoid sums on the uniform grid are finite geometric sums and have closed
  forms; the closed forms differ from the integrals by the factors \<open>alpha\<close> and \<open>gfac\<close>,
  which lie within \<open>x\<^sup>2/6\<close> of 1.
\<close>

lemma trapz_upt:
  "i \<le> j \<Longrightarrow> trapz (map (\<lambda>k. f (g k)) [i..<Suc j]) (map g [i..<Suc j]) =
     (\<Sum>k = i..<j. (g (Suc k) - g k) * (f (g (Suc k)) + f (g k)) / 2)"
proof (induction "j - i" arbitrary: i)
  case 0
  then have "i = j" by simp
  then show ?case by simp
next
  case (Suc d)
  then have lt: "i < j" and d: "d = j - Suc i" and le: "Suc i \<le> j" by simp_all
  obtain rest where l2: "[Suc i..<Suc j] = Suc i # rest"
    using lt by (auto simp del: upt_Suc simp: upt_conv_Cons)
  have l1: "[i..<Suc j] = i # Suc i # rest"
    using lt l2 by (simp del: upt_Suc add: upt_conv_Cons)
  have "trapz (map (\<lambda>k. f (g k)) [i..<Suc j]) (map g [i..<Suc j]) =
      (g (Suc i) - g i) * (f (g (Suc i)) + f (g i)) / 2
      + trapz (map (\<lambda>k. f (g k)) [Suc i..<Suc j]) (map g [Suc i..<Suc j])"
    unfolding l1 l2 by simp
  also have "trapz (map (\<lambda>k. f (g k)) [Suc i..<Suc j]) (map g [Suc i..<Suc j]) =
      (\<Sum>k = Suc i..<j. (g (Suc k) - g k) * (f (g (Suc k)) + f (g k)) / 2)"
    by (rule Suc.hyps(1)[OF d le])
  finally show ?case using lt by (simp add: sum.atLeast_Suc_lessThan)
qed

lemma geo0:
  fixes r :: real
  shows "(\<Sum>k<m. r ^ Suc k + r ^ k) * (1 - r) = (1 + r) * (1 - r ^ m)"
proof (induction m)
  case 0 show ?case by simp
next
  case (Suc m)
  have "(\<Sum>k<Suc m. r ^ Suc k + r ^ k) * (1 - r) =
      (\<Sum>k<m. r ^ Suc k + r ^ k) * (1 - r) + (r ^ Suc m + r ^ m) * (1 - r)"
    by (simp add: distrib_right)
  also have "\<dots> = (1 + r) * (1 - r ^ m) + (r ^ Suc m + r ^ m) * (1 - r)"
    by (simp only: Suc.IH)
  also have "\<dots> = (1 + r) * (1 - r ^ Suc m)" by (simp add: algebra_simps)
  finally show ?case .
qed

lemma geo1:
  fixes r :: real
  shows "(\<Sum>k<m. real (Suc k) * r ^ Suc k + real k * r ^ k) * (1 - r)\<^sup>2 =
     2 * r * (1 - r ^ m) - real m * r ^ m * (1 - r\<^sup>2)"
proof (induction m)
  case 0 show ?case by simp
next
  case (Suc m)
  have "(\<Sum>k<Suc m. real (Suc k) * r ^ Suc k + real k * r ^ k) * (1 - r)\<^sup>2 =
      (\<Sum>k<m. real (Suc k) * r ^ Suc k + real k * r ^ k) * (1 - r)\<^sup>2
      + (real (Suc m) * r ^ Suc m + real m * r ^ m) * (1 - r)\<^sup>2"
    by (simp add: distrib_right)
  also have "\<dots> = 2 * r * (1 - r ^ m) - real m * r ^ m * (1 - r\<^sup>2)
      + (real (Suc m) * r ^ Suc m + real m * r ^ m) * (1 - r)\<^sup>2"
    by (simp only: Suc.IH)
  also have "\<dots> = 2 * r * (1 - r ^ Suc m) - real (Suc m) * r ^ Suc m * (1 - r\<^sup>2)"
    by (simp add: algebra_simps power2_eq_square)
  finally show ?case .
qed

lemma geo2:
  fixes r :: real
  shows "(\<Sum>k<m. (real (Suc k))\<^sup>2 * r ^ Suc k + (real k)\<^sup>2 * r ^ k) * (1 - r) ^ 3 =
     2 * r * (1 + r) * (1 - r ^ m) - 4 * real m * r * r ^ m * (1 - r)
       - (real m)\<^sup>2 * r ^ m * (1 - r)\<^sup>2 * (1 + r)"
proof (induction m)
  case 0 show ?case by simp
next
  case (Suc m)
  have "(\<Sum>k<Suc m. (real (Suc k))\<^sup>2 * r ^ Suc k + (real k)\<^sup>2 * r ^ k) * (1 - r) ^ 3 =
      (\<Sum>k<m. (real (Suc k))\<^sup>2 * r ^ Suc k + (real k)\<^sup>2 * r ^ k) * (1 - r) ^ 3
      + ((real (Suc m))\<^sup>2 * r ^ Suc m + (real m)\<^sup>2 * r ^ m) * (1 - r) ^ 3"
    by (simp add: distrib_right)
  also have "\<dots> = 2 * r * (1 + r) * (1 - r ^ m) - 4 * real m * r * r ^ m * (1 - r)
       - (real m)\<^sup>2 * r ^ m * (1 - r)\<^sup>2 * (1 + r)
      + ((real (Suc m))\<^sup>2 * r ^ Suc m + (real m)\<^sup>2 * r ^ m) * (1 - r) ^ 3"
    by (simp only: Suc.IH)
  also have "\<dots> = 2 * r * (1 + r) * (1 - r ^ Suc m) - 4 * real (Suc m) * r * r ^ Suc m * (1 - r)
       - (real (Suc m))\<^sup>2 * r ^ Suc m * (1 - r)\<^sup>2 * (1 + r)"
    by (simp add: algebra_simps power2_eq_square power3_eq_cube)
  finally show ?case .
qed

lemma trapz_grid:
  assumes "0 < m"
  shows "trapz (map (\<lambda>t. t ^ p * exp (- t / tau)) (linspace 0 L (Suc m))) (linspace 0 L (Suc m)) =
     (L / real m) ^ Suc p / 2 *
       (\<Sum>k<m. real (Suc k) ^ p * exp (- (L / real m) / tau) ^ Suc k
               + real k ^ p * exp (- (L / real m) / tau) ^ k)"
proof -
  define h where "h = L / real m"
  define r where "r = exp (- h / tau)"
  let ?g = "\<lambda>k. 0 + real k * ((L - 0) / real (Suc m - 1))"
  let ?F = "\<lambda>t. t ^ p * exp (- t / tau)"
  have g: "?g k = real k * h" for k by (simp add: h_def)
  have F: "?F (?g k) = h ^ p * (real k ^ p * r ^ k)" for k
  proof -
    have "exp (- (real k * h) / tau) = exp (real k * (- h / tau))" by simp
    also have "\<dots> = r ^ k" unfolding r_def by (rule exp_of_nat_mult)
    finally have e: "exp (- (real k * h) / tau) = r ^ k" .
    have "?F (?g k) = (real k * h) ^ p * exp (- (real k * h) / tau)" unfolding g ..
    also have "\<dots> = h ^ p * (real k ^ p * r ^ k)"
      unfolding e by (simp add: power_mult_distrib)
    finally show ?thesis .
  qed
  have "trapz (map ?F (linspace 0 L (Suc m))) (linspace 0 L (Suc m)) =
      trapz (map (\<lambda>k. ?F (?g k)) [0..<Suc m]) (map ?g [0..<Suc m])"
    by (simp only: linspace_def map_map o_def)
  also have "\<dots> = (\<Sum>k = 0..<m. (?g (Suc k) - ?g k) * (?F (?g (Suc k)) + ?F (?g k)) / 2)"
    by (rule trapz_upt) simp
  also have "\<dots> = (\<Sum>k = 0..<m. h ^ Suc p / 2 * (real (Suc k) ^ p * r ^ Suc k + real k ^ p * r ^ k))"
  proof (rule sum.cong[OF refl])
    fix k
    have d: "?g (Suc k) - ?g k = h" unfolding g by (simp add: algebra_simps)
    show "(?g (Suc k) - ?g k) * (?F (?g (Suc k)) + ?F (?g k)) / 2 =
        h ^ Suc p / 2 * (real (Suc k) ^ p * r ^ Suc k + real k ^ p * r ^ k)"
      unfolding d F by (simp add: algebra_simps)
  qed
  also have "\<dots> = h ^ Suc p / 2 * (\<Sum>k<m. real (Suc k) ^ p * r ^ Suc k + real k ^ p * r ^ k)"
    by (simp add: sum_distrib_left atLeast0LessThan)
  finally show ?thesis unfolding h_def r_def by simp
qed

lemma form0:
  fixes r d :: real
  assumes "d \<noteq> 0" and "U * d = (1 + r) * (1 - E)"
  shows "(tau * x) ^ 1 / 2 * U = tau * (x * (1 + r) / (2 * d)) * (1 - E)"
proof -
  have "U = (1 + r) * (1 - E) / d" using assms by (simp add: field_simps)
  then show ?thesis by simp
qed

lemma form1:
  fixes r d :: real
  assumes "d \<noteq> 0" and "U * d\<^sup>2 = 2 * r * (1 - E) - M * E * (d * (1 + r))"
  shows "(tau * x) ^ 2 / 2 * U =
     tau\<^sup>2 * (x\<^sup>2 * r / d\<^sup>2 * (1 - E) - x * (1 + r) / (2 * d) * (M * x) * E)"
proof -
  have U: "U = (2 * r * (1 - E) - M * E * (d * (1 + r))) / d\<^sup>2"
    using assms by (simp add: field_simps)
  show ?thesis unfolding U using assms(1) by (simp add: field_simps power2_eq_square)
qed

lemma form2:
  fixes r d :: real
  assumes "d \<noteq> 0"
    and "U * d ^ 3 = 2 * r * (1 + r) * (1 - E) - 4 * M * r * E * d - M\<^sup>2 * E * d\<^sup>2 * (1 + r)"
  shows "(tau * x) ^ 3 / 2 * U =
     tau ^ 3 * (2 * (x\<^sup>2 * r / d\<^sup>2) * (x * (1 + r) / (2 * d)) * (1 - E)
                - 2 * (x\<^sup>2 * r / d\<^sup>2) * (M * x) * E
                - x * (1 + r) / (2 * d) * (M * x)\<^sup>2 * E)"
proof -
  have U: "U = (2 * r * (1 + r) * (1 - E) - 4 * M * r * E * d - M\<^sup>2 * E * d\<^sup>2 * (1 + r)) / d ^ 3"
    using assms by (simp add: field_simps)
  show ?thesis unfolding U using assms(1) by (simp add: field_simps power2_eq_square power3_eq_cube)
qed

lemma trapz_closed:
  assumes tau: "0 < tau" and L: "0 < L" and m: "0 < m"
  defines "x \<equiv> L / real m / tau"
  defines "T \<equiv> L / tau"
  defines "E \<equiv> exp (- (L / tau))"
  shows "trapz (map (\<lambda>t. t ^ 0 * exp (- t / tau)) (linspace 0 L (Suc m))) (linspace 0 L (Suc m)) =
           tau * gfac x * (1 - E)"
    and "trapz (map (\<lambda>t. t ^ 1 * exp (- t / tau)) (linspace 0 L (Suc m))) (linspace 0 L (Suc m)) =
           tau\<^sup>2 * (alpha x * (1 - E) - gfac x * T * E)"
    and "trapz (map (\<lambda>t. t ^ 2 * exp (- t / tau)) (linspace 0 L (Suc m))) (linspace 0 L (Suc m)) =
           tau ^ 3 * (2 * alpha x * gfac x * (1 - E) - 2 * alpha x * T * E - gfac x * T\<^sup>2 * E)"
proof -
  define r where "r = exp (- x)"
  define d where "d = 1 - r"
  have xpos: "0 < x" using tau L m by (simp add: x_def)
  have r1: "r < 1" using xpos by (simp add: r_def)
  have d: "d \<noteq> 0" using r1 by (simp add: d_def)
  have hx: "L / real m = tau * x" using tau by (simp add: x_def)
  have rr: "exp (- (L / real m) / tau) = r" by (simp add: r_def x_def)
  have "r ^ m = exp (real m * (- x))" unfolding r_def by (rule exp_of_nat_mult[symmetric])
  also have "real m * (- x) = - (L / tau)" using m by (simp add: x_def)
  finally have rm: "r ^ m = E" by (simp add: E_def)
  have Tx: "real m * x = T" using m by (simp add: x_def T_def)
  have a: "alpha x = x\<^sup>2 * r / d\<^sup>2" by (simp add: alpha_def r_def d_def)
  have g: "gfac x = x * (1 + r) / (2 * d)" by (simp add: gfac_def r_def d_def)
  have u0: "(\<Sum>k<m. r ^ Suc k + r ^ k) * d = (1 + r) * (1 - E)"
    using geo0[of r m] by (simp add: d_def rm)
  have u1: "(\<Sum>k<m. real (Suc k) * r ^ Suc k + real k * r ^ k) * d\<^sup>2 =
      2 * r * (1 - E) - real m * E * (d * (1 + r))"
    using geo1[of r m] by (simp add: d_def rm algebra_simps power2_eq_square)
  have u2: "(\<Sum>k<m. (real (Suc k))\<^sup>2 * r ^ Suc k + (real k)\<^sup>2 * r ^ k) * d ^ 3 =
      2 * r * (1 + r) * (1 - E) - 4 * real m * r * E * d - (real m)\<^sup>2 * E * d\<^sup>2 * (1 + r)"
    using geo2[of r m] by (simp add: d_def rm algebra_simps)
  have "trapz (map (\<lambda>t. t ^ 0 * exp (- t / tau)) (linspace 0 L (Suc m))) (linspace 0 L (Suc m)) =
      (L / real m) ^ Suc 0 / 2 *
       (\<Sum>k<m. real (Suc k) ^ 0 * exp (- (L / real m) / tau) ^ Suc k
               + real k ^ 0 * exp (- (L / real m) / tau) ^ k)"
    by (rule trapz_grid[OF m])
  also have "\<dots> = (tau * x) ^ 1 / 2 * (\<Sum>k<m. r ^ Suc k + r ^ k)"
    unfolding rr unfolding hx by (simp add: numeral_2_eq_2 numeral_3_eq_3)
  also have "\<dots> = tau * (x * (1 + r) / (2 * d)) * (1 - E)"
    by (rule form0[OF d u0])
  finally show "trapz (map (\<lambda>t. t ^ 0 * exp (- t / tau)) (linspace 0 L (Suc m))) (linspace 0 L (Suc m)) =
           tau * gfac x * (1 - E)" by (simp add: g)
  have "trapz (map (\<lambda>t. t ^ 1 * exp (- t / tau)) (linspace 0 L (Suc m))) (linspace 0 L (Suc m)) =
      (L / real m) ^ Suc 1 / 2 *
       (\<Sum>k<m. real (Suc k) ^ 1 * exp (- (L / real m) / tau) ^ Suc k
               + real k ^ 1 * exp (- (L / real m) / tau) ^ k)"
    by (rule trapz_grid[OF m])
  also have "\<dots> = (tau * x) ^ 2 / 2 * (\<Sum>k<m. real (Suc k) * r ^ Suc k + real k * r ^ k)"
    unfolding rr unfolding hx by (simp add: numeral_2_eq_2 numeral_3_eq_3)
  also have "\<dots> = tau\<^sup>2 * (x\<^sup>2 * r / d\<^sup>2 * (1 - E) - x * (1 + r) / (2 * d) * (real m * x) * E)"
    by (rule form1[OF d u1])
  finally show "trapz (map (\<lambda>t. t ^ 1 * exp (- t / tau)) (linspace 0 L (Suc m))) (linspace 0 L (Suc m)) =
           tau\<^sup>2 * (alpha x * (1 - E) - gfac x * T * E)" by (simp add: a g Tx)
  have "trapz (map (\<lambda>t. t ^ 2 * exp (- t / tau)) (linspace 0 L (Suc m))) (linspace 0 L (Suc m)) =
      (L / real m) ^ Suc 2 / 2 *
       (\<Sum>k<m. real (Suc k) ^ 2 * exp (- (L / real m) / tau) ^ Suc k
               + real k ^ 2 * exp (- (L / real m) / tau) ^ k)"
    by (rule trapz_grid[OF m])
  also have "\<dots> = (tau * x) ^ 3 / 2 * (\<Sum>k<m. (real (Suc k))\<^sup>2 * r ^ Suc k + (real k)\<^sup>2 * r ^ k)"
    unfolding rr unfolding hx by (simp add: numeral_2_eq_2 numeral_3_eq_3)
  also have "\<dots> = tau ^ 3 * (2 * (x\<^sup>2 * r / d\<^sup>2) * (x * (1 + r) / (2 * d)) * (1 - E)
                - 2 * (x\<^sup>2 * r / d\<^sup>2) * (real m * x) * E
                - x * (1 + r) / (2 * d) * (real m * x)\<^sup>2 * E)"
    by (rule form2[OF d u2])
  finally show "trapz (map (\<lambda>t. t ^ 2 * exp (- t / tau)) (linspace 0 L (Suc m))) (linspace 0 L (Suc m)) =
           tau ^ 3 * (2 * alpha x * gfac x * (1 - E) - 2 * alpha x * T * E - gfac x * T\<^sup>2 * E)"
    by (simp add: a g Tx)
qed

lemma nonneg_by_deriv:
  fixes f :: "real \<Rightarrow> real"
  assumes d: "\<And>t. 0 \<le> t \<Longrightarrow> t \<le> b \<Longrightarrow> (f has_real_derivative f' t) (at t)"
    and pos: "\<And>t. 0 \<le> t \<Longrightarrow> t \<le> b \<Longrightarrow> 0 \<le> f' t"
    and f0: "f 0 = 0" and x: "0 \<le> x" "x \<le> b"
  shows "0 \<le> f x"
proof -
  have "f 0 \<le> f x"
  proof (rule DERIV_nonneg_imp_nondecreasing[OF x(1)])
    fix t assume "0 \<le> t" "t \<le> x"
    then have "0 \<le> t" "t \<le> b" using x(2) by simp_all
    then show "\<exists>y. (f has_real_derivative y) (at t) \<and> 0 \<le> y"
      using d pos by blast
  qed
  then show ?thesis by (simp add: f0)
qed

lemma phi1_nonneg:
  assumes "0 \<le> (T::real)"
  shows "0 \<le> (T - 1) * exp T + 1 - T\<^sup>2 / 2"
proof (rule nonneg_by_deriv[where f = "\<lambda>T. (T - 1) * exp T + 1 - T\<^sup>2 / 2"
      and f' = "\<lambda>T. T * (exp T - 1)" and b = T])
  fix t :: real
  show "((\<lambda>T. (T - 1) * exp T + 1 - T\<^sup>2 / 2) has_real_derivative t * (exp t - 1)) (at t)"
    by (auto intro!: derivative_eq_intros simp: algebra_simps)
  assume "0 \<le> t"
  then show "0 \<le> t * (exp t - 1)" by simp
qed (use assms in simp_all)

lemma phi2_nonneg:
  assumes "0 \<le> (T::real)"
  shows "0 \<le> (T - 2) * exp T + T + 2 - T ^ 3 / 6"
proof (rule nonneg_by_deriv[where f = "\<lambda>T. (T - 2) * exp T + T + 2 - T ^ 3 / 6"
      and f' = "\<lambda>T. (T - 1) * exp T + 1 - T\<^sup>2 / 2" and b = T])
  fix t :: real
  show "((\<lambda>T. (T - 2) * exp T + T + 2 - T ^ 3 / 6) has_real_derivative (t - 1) * exp t + 1 - t\<^sup>2 / 2) (at t)"
    by (auto intro!: derivative_eq_intros simp: algebra_simps)
  assume "0 \<le> t"
  then show "0 \<le> (t - 1) * exp t + 1 - t\<^sup>2 / 2" by (rule phi1_nonneg)
qed (use assms in simp_all)

lemma sinh_lower:
  assumes "0 \<le> (x::real)"
  shows "2 * x \<le> exp x - exp (- x)"
proof -
  have "0 \<le> exp x - exp (- x) - 2 * x"
  proof (rule nonneg_by_deriv[where f = "\<lambda>x. exp x - exp (- x) - 2 * x"
        and f' = "\<lambda>x. exp x + exp (- x) - 2" and b = x])
    fix t :: real
    show "((\<lambda>x. exp x - exp (- x) - 2 * x) has_real_derivative exp t + exp (- t) - 2) (at t)"
      by (auto intro!: derivative_eq_intros simp: algebra_simps)
    have "1 + t \<le> exp t" "1 + (- t) \<le> exp (- t)" by (rule exp_ge_add_one_self)+
    then show "0 \<le> exp t + exp (- t) - 2" by linarith
  qed (use assms in simp_all)
  then show ?thesis by simp
qed

lemma sinh_upper:
  assumes "0 \<le> (x::real)" "x \<le> 1"
  shows "exp x - exp (- x) \<le> 2 * x + x ^ 3 / 2"
proof -
  have inner: "0 \<le> 2 + 3 * t\<^sup>2 / 2 - exp t - exp (- t)" if "0 \<le> t" "t \<le> 1" for t :: real
  proof (rule nonneg_by_deriv[where f = "\<lambda>x. 2 + 3 * x\<^sup>2 / 2 - exp x - exp (- x)"
        and f' = "\<lambda>x. 3 * x - exp x + exp (- x)" and b = 1])
    fix s :: real
    show "((\<lambda>x. 2 + 3 * x\<^sup>2 / 2 - exp x - exp (- x)) has_real_derivative 3 * s - exp s + exp (- s)) (at s)"
      by (auto intro!: derivative_eq_intros simp: algebra_simps)
    assume s: "0 \<le> s" "s \<le> 1"
    have a: "exp s \<le> 1 + s + s\<^sup>2" by (rule exp_bound[OF s])
    have b: "1 + (- s) \<le> exp (- s)" by (rule exp_ge_add_one_self)
    have "s\<^sup>2 \<le> s" using s by (simp add: power2_eq_square mult_left_le)
    with a b show "0 \<le> 3 * s - exp s + exp (- s)" by linarith
  qed (use that in simp_all)
  have "0 \<le> 2 * x + x ^ 3 / 2 - exp x + exp (- x)"
  proof (rule nonneg_by_deriv[where f = "\<lambda>x. 2 * x + x ^ 3 / 2 - exp x + exp (- x)"
        and f' = "\<lambda>x. 2 + 3 * x\<^sup>2 / 2 - exp x - exp (- x)" and b = 1])
    fix t :: real
    show "((\<lambda>x. 2 * x + x ^ 3 / 2 - exp x + exp (- x)) has_real_derivative 2 + 3 * t\<^sup>2 / 2 - exp t - exp (- t)) (at t)"
      by (auto intro!: derivative_eq_intros simp: algebra_simps)
    assume "0 \<le> t" "t \<le> 1"
    then show "0 \<le> 2 + 3 * t\<^sup>2 / 2 - exp t - exp (- t)" by (rule inner)
  qed (use assms in simp_all)
  then show ?thesis by simp
qed

lemma M_upper:
  assumes "0 \<le> (x::real)"
  shows "x - 2 + (x + 2) * exp (- x) \<le> x ^ 3 / 6"
proof -
  have inner: "0 \<le> t\<^sup>2 / 2 - 1 + (1 + t) * exp (- t)" if "0 \<le> t" for t :: real
  proof (rule nonneg_by_deriv[where f = "\<lambda>x. x\<^sup>2 / 2 - 1 + (1 + x) * exp (- x)"
        and f' = "\<lambda>x. x * (1 - exp (- x))" and b = t])
    fix s :: real
    show "((\<lambda>x. x\<^sup>2 / 2 - 1 + (1 + x) * exp (- x)) has_real_derivative s * (1 - exp (- s))) (at s)"
      by (auto intro!: derivative_eq_intros simp: algebra_simps)
    assume "0 \<le> s"
    then show "0 \<le> s * (1 - exp (- s))" by simp
  qed (use that in simp_all)
  have "0 \<le> x ^ 3 / 6 - (x - 2 + (x + 2) * exp (- x))"
  proof (rule nonneg_by_deriv[where f = "\<lambda>x. x ^ 3 / 6 - (x - 2 + (x + 2) * exp (- x))"
        and f' = "\<lambda>x. x\<^sup>2 / 2 - 1 + (1 + x) * exp (- x)" and b = x])
    fix t :: real
    show "((\<lambda>x. x ^ 3 / 6 - (x - 2 + (x + 2) * exp (- x))) has_real_derivative t\<^sup>2 / 2 - 1 + (1 + t) * exp (- t)) (at t)"
      by (auto intro!: derivative_eq_intros simp: algebra_simps)
    assume "0 \<le> t"
    then show "0 \<le> t\<^sup>2 / 2 - 1 + (1 + t) * exp (- t)" by (rule inner)
  qed (use assms in simp_all)
  then show ?thesis by simp
qed

lemma one_minus_exp_lower:
  assumes "0 \<le> (x::real)"
  shows "x - x\<^sup>2 / 2 \<le> 1 - exp (- x)"
proof -
  have "0 \<le> 1 - exp (- x) - x + x\<^sup>2 / 2"
  proof (rule nonneg_by_deriv[where f = "\<lambda>x. 1 - exp (- x) - x + x\<^sup>2 / 2"
        and f' = "\<lambda>x. exp (- x) - 1 + x" and b = x])
    fix t :: real
    show "((\<lambda>x. 1 - exp (- x) - x + x\<^sup>2 / 2) has_real_derivative exp (- t) - 1 + t) (at t)"
      by (auto intro!: derivative_eq_intros simp: algebra_simps)
    have "1 + (- t) \<le> exp (- t)" by (rule exp_ge_add_one_self)
    then show "0 \<le> exp (- t) - 1 + t" by linarith
  qed (use assms in simp_all)
  then show ?thesis by simp
qed

lemma gfac_bounds:
  assumes x: "0 < x" "x \<le> 1"
  shows "1 \<le> gfac x" and "gfac x \<le> 1 + x\<^sup>2 / 6"
proof -
  define r where "r = exp (- x)"
  define d where "d = 1 - r"
  define M where "M = x - 2 + (x + 2) * r"
  have r: "0 < r" "r < 1" using x by (simp_all add: r_def)
  have d: "0 < d" using r by (simp add: d_def)
  have "x - x\<^sup>2 / 2 \<le> d" unfolding d_def r_def by (rule one_minus_exp_lower) (use x in simp)
  moreover have "x / 2 \<le> x - x\<^sup>2 / 2"
  proof -
    have "x\<^sup>2 \<le> x" using x by (simp add: power2_eq_square mult_left_le)
    then show ?thesis by simp
  qed
  ultimately have d_lo: "x / 2 \<le> d" by simp
  have "0 \<le> ((x - 2) * exp x + x + 2 - x ^ 3 / 6) * r"
    using phi2_nonneg[of x] x r by simp
  also have "\<dots> = M - x ^ 3 / 6 * r"
    by (simp add: M_def r_def algebra_simps exp_minus_inverse)
  finally have "x ^ 3 / 6 * r \<le> M" by simp
  moreover have "0 \<le> x ^ 3 / 6 * r" using x r by simp
  ultimately have M_lo: "0 \<le> M" by linarith
  have M_hi: "M \<le> x ^ 3 / 6" unfolding M_def r_def by (rule M_upper) (use x in simp)
  have g: "gfac x = 1 + M / (2 * d)"
    using d by (simp add: gfac_def r_def[symmetric] d_def[symmetric] M_def field_simps) (simp add: d_def algebra_simps)
  show "1 \<le> gfac x" unfolding g using M_lo d by simp
  have "M \<le> x\<^sup>2 / 6 * (2 * d)"
  proof -
    have "x ^ 3 / 6 = x\<^sup>2 / 6 * (2 * (x / 2))" by (simp add: power2_eq_square power3_eq_cube)
    also have "\<dots> \<le> x\<^sup>2 / 6 * (2 * d)"
      using d_lo by (intro mult_left_mono) simp_all
    finally show ?thesis using M_hi by simp
  qed
  then have "M / (2 * d) \<le> x\<^sup>2 / 6" using d by (simp add: field_simps)
  then show "gfac x \<le> 1 + x\<^sup>2 / 6" unfolding g by simp
qed

lemma alpha_bounds:
  assumes x: "0 < x" "x \<le> 1"
  shows "alpha x \<le> 1" and "1 - x\<^sup>2 / 6 \<le> alpha x"
proof -
  define s where "s = exp (x / 2) - exp (- (x / 2))"
  have s_lo: "x \<le> s" using sinh_lower[of "x / 2"] x by (simp add: s_def)
  have s_hi: "s \<le> x + x ^ 3 / 16"
    using sinh_upper[of "x / 2"] x by (simp add: s_def power_divide)
  have s_pos: "0 < s" using s_lo x by simp
  have "1 - exp (- x) = exp (- (x / 2)) * s"
  proof -
    have "exp (- (x / 2)) * exp (x / 2) = 1" by (simp flip: exp_add)
    moreover have "exp (- (x / 2)) * exp (- (x / 2)) = exp (- x)"
      by (simp flip: exp_add)
    ultimately show ?thesis by (simp add: s_def algebra_simps)
  qed
  moreover have "exp (- x) = (exp (- (x / 2)))\<^sup>2"
    by (simp add: power2_eq_square flip: exp_add)
  ultimately have a: "alpha x = x\<^sup>2 / s\<^sup>2"
    by (simp add: alpha_def power_mult_distrib)
  show "alpha x \<le> 1"
  proof -
    have "x\<^sup>2 \<le> s\<^sup>2" using s_lo x by (intro power_mono) simp_all
    then show ?thesis unfolding a using s_pos by (simp add: divide_le_eq_1)
  qed
  show "1 - x\<^sup>2 / 6 \<le> alpha x"
  proof -
    define u where "u = x\<^sup>2"
    have u: "0 \<le> u" "u \<le> 1" using x by (simp_all add: u_def power_le_one)
    have "s \<le> x * (1 + u / 16)"
      using s_hi by (simp add: u_def algebra_simps power2_eq_square power3_eq_cube)
    then have "s\<^sup>2 \<le> (x * (1 + u / 16))\<^sup>2" using s_pos by (intro power_mono) simp_all
    also have "\<dots> = u * (1 + u / 16)\<^sup>2" by (simp add: u_def power_mult_distrib)
    finally have s2: "s\<^sup>2 \<le> u * (1 + u / 16)\<^sup>2" .
    have key: "(1 - u / 6) * (1 + u / 16)\<^sup>2 \<le> 1"
    proof -
      have "(1 - u / 6) * (1 + u / 16)\<^sup>2 = 1 - u * (1 / 24 + u * (13 / 768) + u\<^sup>2 / 1536)"
        by (simp add: power2_eq_square field_simps)
      moreover have "0 \<le> u * (1 / 24 + u * (13 / 768) + u\<^sup>2 / 1536)" using u by simp
      ultimately show ?thesis by linarith
    qed
    have "(1 - u / 6) * s\<^sup>2 \<le> (1 - u / 6) * (u * (1 + u / 16)\<^sup>2)"
      using s2 u by (intro mult_left_mono) simp_all
    also have "\<dots> = u * ((1 - u / 6) * (1 + u / 16)\<^sup>2)" by (simp add: algebra_simps)
    also have "\<dots> \<le> u * 1" using key u by (intro mult_left_mono) simp_all
    finally have "(1 - u / 6) * s\<^sup>2 \<le> u" by simp
    then show ?thesis unfolding a u_def[symmetric] using s_pos by (simp add: pos_le_divide_eq)
  qed
qed

lemma exp_neg_facts:
  fixes T :: real
  assumes T: "0 \<le> T"
  defines "E \<equiv> exp (- T)"
  shows "0 < E" and "E \<le> 1"
    and "(1 + T + T\<^sup>2 / 2) * E \<le> 1"
    and "E * T ^ 3 / 6 \<le> T - 2 + (T + 2) * E"
    and "E * T\<^sup>2 / 2 \<le> T - 1 + E"
proof -
  show E0: "0 < E" by (simp add: E_def)
  show "E \<le> 1" using T by (simp add: E_def)
  have inv: "exp T * E = 1" by (simp add: E_def flip: exp_add)
  have "(1 + T + T\<^sup>2 / 2) * E \<le> exp T * E"
    using exp_lower_Taylor_quadratic[OF T] E0 by (intro mult_right_mono) simp_all
  then show "(1 + T + T\<^sup>2 / 2) * E \<le> 1" by (simp add: inv)
  have "0 \<le> ((T - 2) * exp T + T + 2 - T ^ 3 / 6) * E"
    using phi2_nonneg[OF T] E0 by simp
  also have "\<dots> = (T - 2) * (exp T * E) + (T + 2) * E - E * T ^ 3 / 6"
    by (simp add: algebra_simps)
  finally show "E * T ^ 3 / 6 \<le> T - 2 + (T + 2) * E" by (simp add: inv)
  have "0 \<le> ((T - 1) * exp T + 1 - T\<^sup>2 / 2) * E"
    using phi1_nonneg[OF T] E0 by simp
  also have "\<dots> = (T - 1) * (exp T * E) + E - E * T\<^sup>2 / 2"
    by (simp add: algebra_simps)
  finally show "E * T\<^sup>2 / 2 \<le> T - 1 + E" by (simp add: inv)
qed

lemma exp_nat_le: "exp (real n) \<le> 3 ^ n"
proof (induction n)
  case 0 show ?case by simp
next
  case (Suc n)
  have "exp (real (Suc n)) = exp 1 * exp (real n)" by (simp add: exp_add)
  also have "\<dots> \<le> 3 * 3 ^ n"
    using exp_le Suc.IH by (intro mult_mono) simp_all
  finally show ?case by simp
qed

lemma exp_neg_lower:
  assumes "T \<le> real n"
  shows "1 / 3 ^ n \<le> exp (- T)"
proof -
  have "exp T \<le> exp (real n)" using assms by simp
  also have "\<dots> \<le> 3 ^ n" by (rule exp_nat_le)
  finally have "exp T \<le> 3 ^ n" .
  then have "1 / 3 ^ n \<le> 1 / exp T" by (intro divide_left_mono) simp_all
  then show ?thesis by (simp add: exp_minus inverse_eq_divide)
qed

lemma ratio_close:
  fixes N D N' D' M e :: real
  assumes D: "0 < D" and D': "0 < D'"
    and e: "\<bar>N' * D - N * D'\<bar> \<le> e"
    and M: "200 * e \<le> M * D'"
  shows "\<bar>N' / D' - N / D\<bar> \<le> 1 / 200 * (M / D)"
proof -
  have "N' / D' - N / D = (N' * D - N * D') / (D' * D)"
    using D D' by (simp add: field_simps)
  then have "\<bar>N' / D' - N / D\<bar> = \<bar>N' * D - N * D'\<bar> / (D' * D)"
    using D D' by (simp add: abs_mult)
  also have "\<dots> \<le> e / (D' * D)"
    using e D D' by (intro divide_right_mono) simp_all
  also have "\<dots> \<le> (M * D' / 200) / (D' * D)"
    using M D D' by (intro divide_right_mono) simp_all
  also have "\<dots> = 1 / 200 * (M / D)" using D D' by simp
  finally show ?thesis .
qed

lemma MD_lower:
  fixes T :: real
  assumes T: "1 / 2 \<le> T" "T \<le> 10"
  defines "E \<equiv> exp (- T)"
  defines "M \<equiv> T - 2 + (T + 2) * E"
  defines "D \<equiv> 1 - (1 + T) * E"
  shows "T\<^sup>2 / 2592 \<le> M * D"
proof -
  have T0: "0 \<le> T" using T by simp
  have E0: "0 < E" and Q: "(1 + T + T\<^sup>2 / 2) * E \<le> 1"
    and Mlo: "E * T ^ 3 / 6 \<le> M"
    using exp_neg_facts[OF T0] by (simp_all add: E_def M_def)
  have Dlo: "E * T\<^sup>2 / 2 \<le> D" using Q by (simp add: D_def algebra_simps)
  show ?thesis
  proof (cases "T \<le> 3")
    case True
    have M0: "0 \<le> E * T ^ 3 / 6" and D0: "0 \<le> E * T\<^sup>2 / 2" using E0 T0 by simp_all
    have prod: "(E * T ^ 3 / 6) * (E * T\<^sup>2 / 2) \<le> M * D"
      using Mlo Dlo M0 D0 by (intro mult_mono) simp_all
    have EE: "E * E = exp (- (2 * T))" by (simp add: E_def flip: exp_add)
    have key: "1 / 216 \<le> E * E * T ^ 3"
    proof (cases "T \<le> 3 / 2")
      case True
      have "2 * T \<le> real 3" using True by simp
      from exp_neg_lower[OF this] have "1 / 27 \<le> E * E" by (simp add: EE)
      moreover have "(1 / 2) ^ 3 \<le> T ^ 3" using T by (intro power_mono) simp_all
      ultimately have "1 / 27 * (1 / 2) ^ 3 \<le> E * E * T ^ 3"
        by (intro mult_mono) simp_all
      then show ?thesis by (simp add: power3_eq_cube)
    next
      case False
      have "2 * T \<le> real 6" using \<open>T \<le> 3\<close> by simp
      from exp_neg_lower[OF this] have "1 / 729 \<le> E * E" by (simp add: EE)
      moreover have "(3 / 2) ^ 3 \<le> T ^ 3" using False by (intro power_mono) simp_all
      ultimately have "1 / 729 * (3 / 2) ^ 3 \<le> E * E * T ^ 3"
        by (intro mult_mono) simp_all
      then show ?thesis by (simp add: power3_eq_cube)
    qed
    have "T\<^sup>2 / 2592 = 1 / 216 * (T\<^sup>2 / 12)" by simp
    also have "\<dots> \<le> E * E * T ^ 3 * (T\<^sup>2 / 12)"
      using key by (intro mult_right_mono) simp_all
    also have "\<dots> = (E * T ^ 3 / 6) * (E * T\<^sup>2 / 2)" by (simp add: algebra_simps)
    finally show ?thesis using prod by simp
  next
    case False
    then have T3: "3 \<le> T" by simp
    have "(1 + T) \<le> 3 / 5 * (1 + T + T\<^sup>2 / 2)"
    proof -
      have "3 * T \<le> T * T" using T3 by (intro mult_right_mono) simp_all
      then have "4 * T + 4 \<le> 3 * (T * T)" using T3 by linarith
      then show ?thesis by (simp add: power2_eq_square)
    qed
    then have "(1 + T) * E \<le> 3 / 5 * (1 + T + T\<^sup>2 / 2) * E"
      using E0 by (intro mult_right_mono) simp_all
    also have "\<dots> = 3 / 5 * ((1 + T + T\<^sup>2 / 2) * E)" by simp
    also have "\<dots> \<le> 3 / 5 * 1" using Q by (intro mult_left_mono) simp_all
    finally have D25: "2 / 5 \<le> D" by (simp add: D_def)
    have "0 \<le> (T + 2) * E" using E0 T0 by simp
    then have M1: "T - 2 \<le> M" by (simp add: M_def)
    have "(T - 2) * (2 / 5) \<le> M * D"
      using M1 D25 T3 by (intro mult_mono) simp_all
    moreover have "T\<^sup>2 / 2592 \<le> (T - 2) * (2 / 5)"
    proof -
      have "T * T \<le> 10 * T" using T by (intro mult_right_mono) simp_all
      then have "T * T / 2592 \<le> 2 / 5 * T - 4 / 5" using T3 by linarith
      then show ?thesis by (simp add: power2_eq_square algebra_simps)
    qed
    ultimately show ?thesis by simp
  qed
qed

lemma core1:
  fixes T a g u :: real
  assumes T: "1 / 2 \<le> T" "T \<le> 10"
    and u: "u = (T / 999)\<^sup>2 / 6"
    and a: "1 - u \<le> a" "a \<le> 1" and g: "1 \<le> g" "g \<le> 1 + u"
  defines "E \<equiv> exp (- T)"
  defines "N \<equiv> 2 * (1 - E) - 2 * T * E - T\<^sup>2 * E"
  defines "D \<equiv> (1 - E) - T * E"
  defines "N' \<equiv> 2 * a * g * (1 - E) - 2 * a * T * E - g * T\<^sup>2 * E"
  defines "D' \<equiv> a * (1 - E) - g * T * E"
  shows "0 < D" and "0 < D'" and "\<bar>N' / D' - N / D\<bar> \<le> 1 / 200 * (T - N / D)"
proof -
  define M where "M = T - 2 + (T + 2) * E"
  have T0: "0 \<le> T" "0 < T" using T by simp_all
  have E0: "0 < E" and E1: "E \<le> 1" and Q: "(1 + T + T\<^sup>2 / 2) * E \<le> 1"
    and Mlo: "E * T ^ 3 / 6 \<le> M"
    using exp_neg_facts[OF T0(1)] by (simp_all add: E_def M_def)
  have u0: "0 < u" using T0 by (simp add: u)
  have "T\<^sup>2 \<le> 10\<^sup>2" using T by (intro power_mono) simp_all
  then have u_hi: "u \<le> 1 / 59880" by (simp add: u power_divide)
  have u_eq: "1615 * u \<le> T\<^sup>2 / 2592" by (simp add: u power_divide)
  define p where "p = T * E"
  define q where "q = T\<^sup>2 * E"
  have p0: "0 \<le> p" and q0: "0 \<le> q" using E0 T0 by (simp_all add: p_def q_def)
  have Q': "E + p + q / 2 \<le> 1" using Q by (simp add: p_def q_def algebra_simps)
  have "2 * T \<le> 1 + T + T\<^sup>2 / 2"
  proof -
    have "0 \<le> (T - 1)\<^sup>2" by simp
    then show ?thesis by (simp add: power2_eq_square algebra_simps)
  qed
  then have "2 * T * E \<le> (1 + T + T\<^sup>2 / 2) * E" using E0 by (intro mult_right_mono) simp_all
  then have p_hi: "p \<le> 1 / 2" using Q by (simp add: p_def)
  have q_hi: "q \<le> 2" using Q' E0 p0 by linarith
  have N_eq: "N = 2 * (1 - E) - 2 * p - q" and D_eq: "D = (1 - E) - p"
    and N'_eq: "N' = 2 * (a * g) * (1 - E) - 2 * a * p - g * q"
    and D'_eq: "D' = a * (1 - E) - g * p"
    by (simp_all add: N_def D_def N'_def D'_def p_def q_def algebra_simps)
  have M_eq: "M = T * D - N"
    by (simp add: M_def N_def D_def algebra_simps power2_eq_square)
  have MD: "1615 * u \<le> M * D"
  proof -
    have "T\<^sup>2 / 2592 \<le> M * D"
      using MD_lower[OF T] by (simp add: M_def D_def E_def algebra_simps)
    with u_eq show ?thesis by linarith
  qed
  have D_lo: "E * T\<^sup>2 / 2 \<le> D" using Q by (simp add: D_def algebra_simps)
  have "0 < E * T\<^sup>2 / 2" using E0 T0 by simp
  with D_lo show D0: "0 < D" by linarith
  have D1: "D \<le> 1" using E0 p0 by (simp add: D_eq)
  have N0: "0 \<le> N" using Q' by (simp add: N_eq)
  have N2: "N \<le> 2" using E0 p0 q0 by (simp add: N_eq)
  have M_hi: "M \<le> T"
  proof -
    have "(T + 2) * E = p + 2 * E" by (simp add: p_def algebra_simps)
    also have "\<dots> \<le> 2" using Q' q0 p0 by linarith
    finally show ?thesis by (simp add: M_def)
  qed
  have M0: "0 < M"
  proof -
    have "0 < E * T ^ 3 / 6" using E0 T0 by simp
    with Mlo show ?thesis by linarith
  qed
  have a0: "0 < a" using a u_hi by linarith
  have ag_lo: "1 - u \<le> a * g"
  proof -
    have "a * 1 \<le> a * g" using g a0 by (intro mult_left_mono) simp_all
    then have "a \<le> a * g" by simp
    with a show ?thesis by linarith
  qed
  have ag_hi: "a * g \<le> 1 + u"
  proof -
    have "a * g \<le> 1 * g" using a g by (intro mult_right_mono) simp_all
    then have "a * g \<le> g" by simp
    with g show ?thesis by linarith
  qed
  have E01: "0 \<le> 1 - E" "1 - E \<le> 1" using E0 E1 by simp_all
  have t1: "\<bar>(a * g - 1) * (1 - E)\<bar> \<le> u"
  proof -
    have "\<bar>(a * g - 1) * (1 - E)\<bar> = \<bar>a * g - 1\<bar> * (1 - E)" using E01 by (simp add: abs_mult)
    also have "\<dots> \<le> u * 1" using ag_lo ag_hi E01 u0 by (intro mult_mono) simp_all
    finally show ?thesis by simp
  qed
  have t2: "\<bar>(a - 1) * p\<bar> \<le> u / 2"
  proof -
    have "\<bar>(a - 1) * p\<bar> = \<bar>a - 1\<bar> * p" using p0 by (simp add: abs_mult)
    also have "\<dots> \<le> u * (1 / 2)" using a p0 p_hi u0 by (intro mult_mono) simp_all
    finally show ?thesis by simp
  qed
  have t3: "\<bar>(g - 1) * q\<bar> \<le> 2 * u"
  proof -
    have "\<bar>(g - 1) * q\<bar> = \<bar>g - 1\<bar> * q" using q0 by (simp add: abs_mult)
    also have "\<dots> \<le> u * 2" using g q0 q_hi u0 by (intro mult_mono) simp_all
    finally show ?thesis by simp
  qed
  have t4: "\<bar>(a - 1) * (1 - E)\<bar> \<le> u"
  proof -
    have "\<bar>(a - 1) * (1 - E)\<bar> = \<bar>a - 1\<bar> * (1 - E)" using E01 by (simp add: abs_mult)
    also have "\<dots> \<le> u * 1" using a E01 u0 by (intro mult_mono) simp_all
    finally show ?thesis by simp
  qed
  have t5: "\<bar>(g - 1) * p\<bar> \<le> u / 2"
  proof -
    have "\<bar>(g - 1) * p\<bar> = \<bar>g - 1\<bar> * p" using p0 by (simp add: abs_mult)
    also have "\<dots> \<le> u * (1 / 2)" using g p0 p_hi u0 by (intro mult_mono) simp_all
    finally show ?thesis by simp
  qed
  have dN_eq: "N' - N = 2 * ((a * g - 1) * (1 - E)) - 2 * ((a - 1) * p) - (g - 1) * q"
    by (simp add: N'_eq N_eq algebra_simps)
  have dD_eq: "D' - D = (a - 1) * (1 - E) - (g - 1) * p"
    by (simp add: D'_eq D_eq algebra_simps)
  have dN: "\<bar>N' - N\<bar> \<le> 5 * u" unfolding dN_eq using t1 t2 t3 by linarith
  have dD: "\<bar>D' - D\<bar> \<le> 3 / 2 * u" unfolding dD_eq using t4 t5 by linarith
  have cross: "\<bar>N' * D - N * D'\<bar> \<le> 8 * u"
  proof -
    have "N' * D - N * D' = (N' - N) * D - N * (D' - D)" by (simp add: algebra_simps)
    then have "\<bar>N' * D - N * D'\<bar> \<le> \<bar>(N' - N) * D\<bar> + \<bar>N * (D' - D)\<bar>" by simp
    also have "\<bar>(N' - N) * D\<bar> = \<bar>N' - N\<bar> * D" using D0 by (simp add: abs_mult)
    also have "\<bar>N * (D' - D)\<bar> = N * \<bar>D' - D\<bar>" using N0 by (simp add: abs_mult)
    also have "\<bar>N' - N\<bar> * D + N * \<bar>D' - D\<bar> \<le> 5 * u * 1 + 2 * (3 / 2 * u)"
      using dN dD D0 D1 N0 N2 u0 by (intro add_mono mult_mono) simp_all
    finally show ?thesis by simp
  qed
  have D_big: "323 / 2 * u \<le> D"
  proof -
    have "M * D \<le> 10 * D" using M_hi T D0 by (intro mult_right_mono) simp_all
    with MD show ?thesis by linarith
  qed
  have D'_lo: "D - 3 / 2 * u \<le> D'" using dD by linarith
  with D_big u0 show D'0: "0 < D'" by linarith
  have MD': "200 * (8 * u) \<le> M * D'"
  proof -
    have "M * (D - 3 / 2 * u) \<le> M * D'" using D'_lo M0 by (intro mult_left_mono) simp_all
    moreover have "M * (3 / 2 * u) \<le> 10 * (3 / 2 * u)"
      using M_hi T u0 by (intro mult_right_mono) simp_all
    ultimately show ?thesis using MD by (simp add: algebra_simps)
  qed
  have "\<bar>N' / D' - N / D\<bar> \<le> 1 / 200 * (M / D)"
    by (rule ratio_close[OF D0 D'0 cross MD'])
  moreover have "M / D = T - N / D" using D0 by (simp add: M_eq field_simps)
  ultimately show "\<bar>N' / D' - N / D\<bar> \<le> 1 / 200 * (T - N / D)" by simp
qed

lemma core0:
  fixes T a g u :: real
  assumes T: "1 / 2 \<le> T" "T \<le> 10"
    and u: "u = (T / 999)\<^sup>2 / 6"
    and a: "1 - u \<le> a" "a \<le> 1" and g: "1 \<le> g" "g \<le> 1 + u"
  defines "E \<equiv> exp (- T)"
  shows "0 < 1 - E" and "\<bar>a / g - 1\<bar> \<le> 1 / 200 * ((T - 1 + E) / (1 - E))"
proof -
  define W where "W = T - 1 + E"
  have T0: "0 \<le> T" "0 < T" using T by simp_all
  have E0: "0 < E" and E1: "E \<le> 1" and Wlo: "E * T\<^sup>2 / 2 \<le> W"
    using exp_neg_facts[OF T0(1)] by (simp_all add: E_def W_def)
  have "E < 1" using T0 by (simp add: E_def)
  then show d: "0 < 1 - E" by simp
  have u0: "0 < u" using T0 by (simp add: u)
  have "T\<^sup>2 \<le> 10\<^sup>2" using T by (intro power_mono) simp_all
  then have u_hi: "u \<le> 1 / 59880" by (simp add: u power_divide)
  have g0: "0 < g" using g by simp
  have hi: "a / g \<le> 1" using a g g0 by (simp add: divide_le_eq_1)
  have lo: "1 - 2 * u \<le> a / g"
  proof -
    have "(1 - 2 * u) * g \<le> (1 - 2 * u) * (1 + u)"
      using g u_hi by (intro mult_left_mono) simp_all
    also have "\<dots> = 1 - u - 2 * u\<^sup>2" by (simp add: algebra_simps power2_eq_square)
    also have "\<dots> \<le> 1 - u" by simp
    also have "\<dots> \<le> a" by (rule a)
    finally show ?thesis using g0 by (simp add: pos_le_divide_eq)
  qed
  have dev: "\<bar>a / g - 1\<bar> \<le> 2 * u" using hi lo by linarith
  have W_big: "400 * u \<le> W"
  proof (cases "T \<le> 2")
    case True
    then have "T \<le> real 2" by simp
    from exp_neg_lower[OF this] have "1 / 9 \<le> E" by (simp add: E_def)
    then have "1 / 9 * (T\<^sup>2 / 2) \<le> E * (T\<^sup>2 / 2)" by (intro mult_right_mono) simp_all
    moreover have "400 * u \<le> 1 / 9 * (T\<^sup>2 / 2)" by (simp add: u power_divide)
    ultimately show ?thesis using Wlo by simp
  next
    case False
    then have "1 \<le> W" using E0 by (simp add: W_def)
    then show ?thesis using u_hi by linarith
  qed
  have W0: "0 \<le> W" using W_big u0 by linarith
  have "W \<le> W / (1 - E)"
  proof -
    have "W * (1 - E) \<le> W * 1" using W0 E0 by (intro mult_left_mono) simp_all
    then show ?thesis using d by (simp add: pos_le_divide_eq)
  qed
  with dev W_big show "\<bar>a / g - 1\<bar> \<le> 1 / 200 * ((T - 1 + E) / (1 - E))"
    unfolding W_def by linarith
qed

lemma grid_factors:
  fixes T :: real
  assumes T: "1 / 2 \<le> T" "T \<le> 10"
  defines "x \<equiv> T / 999"
  defines "u \<equiv> (T / 999)\<^sup>2 / 6"
  shows "1 - u \<le> alpha x" "alpha x \<le> 1" "1 \<le> gfac x" "gfac x \<le> 1 + u"
proof -
  have x: "0 < x" "x \<le> 1" using T by (simp_all add: x_def)
  show "1 - u \<le> alpha x" using alpha_bounds(2)[OF x] by (simp add: u_def x_def)
  show "alpha x \<le> 1" by (rule alpha_bounds(1)[OF x])
  show "1 \<le> gfac x" by (rule gfac_bounds(1)[OF x])
  show "gfac x \<le> 1 + u" using gfac_bounds(2)[OF x] by (simp add: u_def x_def)
qed

lemma mwa_numerical_closed:
  assumes tau: "0 < tau" and L: "0 < tage"
  defines "x \<equiv> tage / tau / 999"
  defines "T \<equiv> tage / tau"
  defines "E \<equiv> exp (- (tage / tau))"
  shows "parametric_mwa_numerical tau tage 0 1000 =
           tage - tau\<^sup>2 * (alpha x * (1 - E) - gfac x * T * E) / (tau * gfac x * (1 - E))"
    and "parametric_mwa_numerical tau tage 1 1000 =
           tage - tau ^ 3 * (2 * alpha x * gfac x * (1 - E) - 2 * alpha x * T * E - gfac x * T\<^sup>2 * E)
                    / (tau\<^sup>2 * (alpha x * (1 - E) - gfac x * T * E))"
proof -
  have n: "(1000 :: nat) = Suc 999" by simp
  have e0: "(0 :: nat) + 1 = 1" and e1: "(1 :: nat) + 1 = 2" by simp_all
  have x': "tage / real 999 / tau = x" by (simp add: x_def)
  have m: "0 < (999 :: nat)" by simp
  note c = trapz_closed[OF tau L m, unfolded x']
  show "parametric_mwa_numerical tau tage 0 1000 =
           tage - tau\<^sup>2 * (alpha x * (1 - E) - gfac x * T * E) / (tau * gfac x * (1 - E))"
    unfolding parametric_mwa_numerical_def Let_def n e0 c(1) c(2) T_def E_def ..
  show "parametric_mwa_numerical tau tage 1 1000 =
           tage - tau ^ 3 * (2 * alpha x * gfac x * (1 - E) - 2 * alpha x * T * E - gfac x * T\<^sup>2 * E)
                    / (tau\<^sup>2 * (alpha x * (1 - E) - gfac x * T * E))"
    unfolding parametric_mwa_numerical_def Let_def n e1 c(2) c(3) T_def E_def ..
qed

text \<open>
  Claim C6. Let scipy's \<open>gamma\<close> and \<open>gammainc\<close> take their values at the integer shapes
  1, 2 and 3. For every \<open>tau > 0\<close>, every \<open>tage\<close> with \<open>tage/tau\<close> in \<open>[0.5, 10]\<close> and
  \<open>power\<close> 0 or 1, the closed-form mass-weighted age \<open>parametric_mwa\<close> and the trapezoid
  version \<open>parametric_mwa_numerical\<close> on 1000 grid points differ by at most 1 percent
  of either value. The arithmetic is that of the reals.
\<close>

theorem parametric_mwa_agreement:
  assumes tau: "0 < tau"
    and range: "1 / 2 \<le> tage / tau" "tage / tau \<le> 10"
    and pow: "pow = 0 \<or> pow = 1"
    and special: "integer_shape_values gamma gammainc"
  shows "\<exists>mwa. parametric_mwa gamma gammainc tau tage pow = Inr mwa \<and>
           \<bar>mwa - parametric_mwa_numerical tau tage pow 1000\<bar> \<le> 1 / 100 * \<bar>mwa\<bar> \<and>
           \<bar>mwa - parametric_mwa_numerical tau tage pow 1000\<bar>
             \<le> 1 / 100 * \<bar>parametric_mwa_numerical tau tage pow 1000\<bar>"
proof -
  define T where "T = tage / tau"
  define E where "E = exp (- T)"
  define x where "x = tage / tau / 999"
  define u where "u = (T / 999)\<^sup>2 / 6"
  define a where "a = alpha x"
  define g where "g = gfac x"
  have T: "1 / 2 \<le> T" "T \<le> 10" using range by (simp_all add: T_def)
  have tage: "tage = tau * T" using tau by (simp add: T_def)
  have L: "0 < tage" using tau T by (simp add: tage)
  have xT: "x = T / 999" by (simp add: x_def T_def)
  have f: "1 - u \<le> a" "a \<le> 1" "1 \<le> g" "g \<le> 1 + u"
    using grid_factors[OF T] by (simp_all add: a_def g_def xT u_def)
  have g0: "0 < g" using f by simp
  have G2: "gamma 2 = 1" and G3: "gamma 3 = 2"
    and P1: "gammainc 1 T = 1 - E"
    and P2: "gammainc 2 T = 1 - (1 + T) * E"
    and P3: "gammainc 3 T = 1 - (1 + T + T\<^sup>2 / 2) * E"
    using special T by (simp_all add: integer_shape_values_def E_def)
  from pow show ?thesis
  proof
    assume p0: "pow = 0"
    have d: "0 < 1 - E" and c: "\<bar>a / g - 1\<bar> \<le> 1 / 200 * ((T - 1 + E) / (1 - E))"
      using core0[OF T u_def f] by (simp_all add: E_def)
    define mwa where "mwa = tage - (1 - (1 + T) * E) * 1 / (1 - E) * tau"
    have cl: "parametric_mwa gamma gammainc tau tage pow = Inr mwa"
      using tau by (simp add: parametric_mwa_def p0 Let_def T_def[symmetric] G2 P1 P2 mwa_def)
    have nm: "parametric_mwa_numerical tau tage pow 1000 =
        tage - tau\<^sup>2 * (a * (1 - E) - g * T * E) / (tau * g * (1 - E))"
      using mwa_numerical_closed(1)[OF tau L] by (simp add: p0 a_def g_def x_def T_def E_def)
    define dd where "dd = 1 - E"
    have dd: "0 < dd" using d by (simp add: dd_def)
    have Ed: "E = 1 - dd" by (simp add: dd_def)
    have diff: "mwa - parametric_mwa_numerical tau tage pow 1000 = tau * (a / g - 1)"
      unfolding nm mwa_def Ed using tau g0 dd
      by (simp add: field_simps power2_eq_square)
    have val: "mwa = tau * ((T - 1 + E) / (1 - E))"
      unfolding mwa_def tage Ed using dd by (simp add: field_simps)
    define Y where "Y = (T - 1 + E) / (1 - E)"
    have "0 \<le> \<bar>a / g - 1\<bar>" by simp
    then have "0 \<le> 1 / 200 * Y" using c unfolding Y_def by (rule order_trans)
    then have "0 \<le> Y" by simp
    then have nonneg: "0 \<le> (T - 1 + E) / (1 - E)" unfolding Y_def .
    have "\<bar>mwa - parametric_mwa_numerical tau tage pow 1000\<bar> = tau * \<bar>a / g - 1\<bar>"
      unfolding diff using tau by (simp add: abs_mult)
    also have "\<dots> \<le> tau * (1 / 200 * ((T - 1 + E) / (1 - E)))"
      using c tau by (intro mult_left_mono) simp_all
    also have "\<dots> = 1 / 200 * mwa" unfolding val by simp
    finally have bound: "\<bar>mwa - parametric_mwa_numerical tau tage pow 1000\<bar> \<le> 1 / 200 * mwa" .
    have "0 \<le> tau * ((T - 1 + E) / (1 - E))" using tau nonneg by (intro mult_nonneg_nonneg) simp_all
    then have "0 \<le> mwa" unfolding val .
    with bound have "\<bar>mwa - parametric_mwa_numerical tau tage pow 1000\<bar> \<le> 1 / 100 * \<bar>mwa\<bar>"
      and "\<bar>mwa - parametric_mwa_numerical tau tage pow 1000\<bar>
             \<le> 1 / 100 * \<bar>parametric_mwa_numerical tau tage pow 1000\<bar>"
      by linarith+
    then show ?thesis using cl by blast
  next
    assume p1: "pow = 1"
    define N where "N = 2 * (1 - E) - 2 * T * E - T\<^sup>2 * E"
    define D where "D = (1 - E) - T * E"
    define N' where "N' = 2 * a * g * (1 - E) - 2 * a * T * E - g * T\<^sup>2 * E"
    define D' where "D' = a * (1 - E) - g * T * E"
    have D0: "0 < D" and D'0: "0 < D'" and c: "\<bar>N' / D' - N / D\<bar> \<le> 1 / 200 * (T - N / D)"
      using core1[OF T u_def f] by (simp_all add: E_def N_def D_def N'_def D'_def)
    define mwa where "mwa = tage - (1 - (1 + T + T\<^sup>2 / 2) * E) * 2 / (1 - (1 + T) * E) * tau"
    have cl: "parametric_mwa gamma gammainc tau tage pow = Inr mwa"
      using tau by (simp add: parametric_mwa_def p1 Let_def T_def[symmetric] G3 P2 P3 mwa_def)
    have nm: "parametric_mwa_numerical tau tage pow 1000 = tage - tau ^ 3 * N' / (tau\<^sup>2 * D')"
      using mwa_numerical_closed(2)[OF tau L]
      by (simp add: p1 a_def g_def x_def T_def E_def N'_def D'_def)
    have nm': "tau ^ 3 * N' / (tau\<^sup>2 * D') = tau * (N' / D')"
      using tau by (simp add: power2_eq_square power3_eq_cube)
    have Nd: "(1 - (1 + T + T\<^sup>2 / 2) * E) * 2 / (1 - (1 + T) * E) * tau = tau * (N / D)"
    proof -
      have "(1 - (1 + T + T\<^sup>2 / 2) * E) * 2 = N" by (simp add: N_def algebra_simps)
      moreover have "1 - (1 + T) * E = D" by (simp add: D_def algebra_simps)
      ultimately show ?thesis by simp
    qed
    have diff: "mwa - parametric_mwa_numerical tau tage pow 1000 = tau * (N' / D' - N / D)"
      unfolding nm nm' mwa_def Nd by (simp add: algebra_simps)
    have val: "mwa = tau * (T - N / D)"
      unfolding mwa_def Nd tage by (simp add: algebra_simps)
    define Y where "Y = T - N / D"
    have "0 \<le> \<bar>N' / D' - N / D\<bar>" by simp
    then have "0 \<le> 1 / 200 * Y" using c unfolding Y_def by (rule order_trans)
    then have "0 \<le> Y" by simp
    then have nonneg: "0 \<le> T - N / D" unfolding Y_def .
    have "\<bar>mwa - parametric_mwa_numerical tau tage pow 1000\<bar> = tau * \<bar>N' / D' - N / D\<bar>"
      unfolding diff using tau by (simp add: abs_mult)
    also have "\<dots> \<le> tau * (1 / 200 * (T - N / D))"
      using c tau by (intro mult_left_mono) simp_all
    also have "\<dots> = 1 / 200 * mwa" unfolding val by simp
    finally have bound: "\<bar>mwa - parametric_mwa_numerical tau tage pow 1000\<bar> \<le> 1 / 200 * mwa" .
    have "0 \<le> tau * (T - N / D)" using tau nonneg by (intro mult_nonneg_nonneg) simp_all
    then have "0 \<le> mwa" unfolding val .
    with bound have "\<bar>mwa - parametric_mwa_numerical tau tage pow 1000\<bar> \<le> 1 / 100 * \<bar>mwa\<bar>"
      and "\<bar>mwa - parametric_mwa_numerical tau tage pow 1000\<bar>
             \<le> 1 / 100 * \<bar>parametric_mwa_numerical tau tage pow 1000\<bar>"
      by linarith+
    then show ?thesis using cl by blast
  qed
qed

text \<open>
  The hypotheses hold for the default call \<open>tau = 4\<close>, \<open>tage = 13.7\<close>, \<open>power = 1\<close> and
  the closed forms themselves.
\<close>

theorem parametric_mwa_agreement_witness:
  "(0 :: real) < 4 \<and> (1 / 2 :: real) \<le> 137 / 10 / 4 \<and> (137 / 10 / 4 :: real) \<le> 10 \<and>
   ((1 :: nat) = 0 \<or> (1 :: nat) = 1) \<and>
   integer_shape_values (\<lambda>a. if a = 3 then 2 else 1)
     (\<lambda>a x. if a = 1 then 1 - exp (- x)
            else if a = 2 then 1 - (1 + x) * exp (- x)
            else 1 - (1 + x + x\<^sup>2 / 2) * exp (- x)) \<and>
   (\<exists>mwa. parametric_mwa (\<lambda>a. if a = 3 then 2 else 1)
       (\<lambda>a x. if a = 1 then 1 - exp (- x)
            else if a = 2 then 1 - (1 + x) * exp (- x)
            else 1 - (1 + x + x\<^sup>2 / 2) * exp (- x)) 4 (137 / 10) 1 = Inr mwa \<and>
      \<bar>mwa - parametric_mwa_numerical 4 (137 / 10) 1 1000\<bar> \<le> 1 / 100 * \<bar>mwa\<bar> \<and>
      \<bar>mwa - parametric_mwa_numerical 4 (137 / 10) 1 1000\<bar>
        \<le> 1 / 100 * \<bar>parametric_mwa_numerical 4 (137 / 10) 1 1000\<bar>)"
proof -
  let ?G = "\<lambda>a :: real. if a = 3 then 2 else (1 :: real)"
  let ?P = "\<lambda>(a :: real) (x :: real). if a = 1 then 1 - exp (- x)
            else if a = 2 then 1 - (1 + x) * exp (- x)
            else 1 - (1 + x + x\<^sup>2 / 2) * exp (- x)"
  have s: "integer_shape_values ?G ?P" by (simp add: integer_shape_values_def)
  have "\<exists>mwa. parametric_mwa ?G ?P 4 (137 / 10) 1 = Inr mwa \<and>
      \<bar>mwa - parametric_mwa_numerical 4 (137 / 10) 1 1000\<bar> \<le> 1 / 100 * \<bar>mwa\<bar> \<and>
      \<bar>mwa - parametric_mwa_numerical 4 (137 / 10) 1 1000\<bar>
        \<le> 1 / 100 * \<bar>parametric_mwa_numerical 4 (137 / 10) 1 1000\<bar>"
    by (rule parametric_mwa_agreement[OF _ _ _ _ s]) simp_all
  with s show ?thesis by simp
qed

end
